theory Spec2Isabelle
  imports Main
begin

section \<open>Characters and strings of the Python source\<close>

abbreviation newline :: char where
  "newline \<equiv> CHR 0x0A"

abbreviation space :: char where
  "space \<equiv> CHR 0x20"

abbreviation squote :: char where
  "squote \<equiv> CHR 0x27"

abbreviation dquote :: char where
  "dquote \<equiv> CHR 0x22"

section \<open>remove_extra_line_jumps\<close>

text \<open>
  \<^verbatim>\<open>code = re.sub(r'\n{3,}', '\n\n', code)\<close>

  The regular expression engine scans from left to right. At each position it tries the
  greedy pattern: when at least three newline characters start here, the whole run is
  consumed and two newline characters are written; otherwise the character at the position
  is copied and the scan moves on by one.
\<close>

function remove_extra_line_jumps :: "string \<Rightarrow> string" where
  "remove_extra_line_jumps [] = []"
| "remove_extra_line_jumps (c # cs) =
     (if 3 \<le> length (takeWhile (\<lambda>x. x = newline) (c # cs))
      then [newline, newline] @ remove_extra_line_jumps (dropWhile (\<lambda>x. x = newline) (c # cs))
      else c # remove_extra_line_jumps cs)"
  by pat_completeness auto
termination
proof (relation "measure length")
  show "wf (measure length)" by simp
next
  fix c :: char and cs :: string
  assume "3 \<le> length (takeWhile (\<lambda>x. x = newline) (c # cs))"
  then have "c = newline" by (auto split: if_splits)
  then have "dropWhile (\<lambda>x. x = newline) (c # cs) = dropWhile (\<lambda>x. x = newline) cs" by simp
  moreover have "length (dropWhile (\<lambda>x. x = newline) cs) \<le> length cs"
    by (rule length_dropWhile_le)
  ultimately show "(dropWhile (\<lambda>x. x = newline) (c # cs), c # cs) \<in> measure length" by simp
next
  fix c :: char and cs :: string
  show "(cs, c # cs) \<in> measure length" by simp
qed

section \<open>is_parent_ignored\<close>

text \<open>
  A \<^verbatim>\<open>pathlib\<close> path in its normalised form: whether it is anchored at the filesystem
  root, and its components. \<^verbatim>\<open>Path('.')\<close> is the relative path without components.
\<close>

datatype path = Path (is_absolute: bool) (parts: "string list")

abbreviation Path_dot :: path where
  "Path_dot \<equiv> Path False []"

fun parent :: "path \<Rightarrow> path" where
  "parent (Path a ps) = Path a (butlast ps)"

fun name :: "path \<Rightarrow> string" where
  "name (Path a ps) = (if ps = [] then [] else last ps)"

text \<open>
  \<^verbatim>\<open>
  current = file.parent
  while current != Path('.'):
      if current.name in ignored_folders:
          return True
      current = current.parent
  return False
  \<close>
  The loop need not end, so not returning is the value \<open>None\<close>.
\<close>

partial_function (option) is_parent_ignored_loop :: "path \<Rightarrow> string set \<Rightarrow> bool option" where
  "is_parent_ignored_loop current ignored_folders =
     (if current \<noteq> Path_dot
      then (if name current \<in> ignored_folders then Some True
            else is_parent_ignored_loop (parent current) ignored_folders)
      else Some False)"

definition is_parent_ignored :: "path \<Rightarrow> string set \<Rightarrow> bool option" where
  "is_parent_ignored file ignored_folders = is_parent_ignored_loop (parent file) ignored_folders"

section \<open>get_arborescence\<close>












section \<open>remove_function_body\<close>

text \<open>
  The syntax trees of the \<^verbatim>\<open>ast\<close> module, as far as the transformer looks at them.
  An expression is a string constant (what \<^verbatim>\<open>isinstance(value, ast.Str)\<close> accepts) or
  any other expression, kept as its text: an expression holds no statement, so visiting it
  leaves it as it is. A statement is a function definition (plain or \<^verbatim>\<open>async\<close>), with
  its name, its signature (arguments and return annotation), its body and its decorators; a
  class definition; an expression statement; \<^verbatim>\<open>pass\<close>; any other statement without
  statement children; or any other compound statement, given by its kind, its expressions and
  its blocks in field order (\<^verbatim>\<open>If\<close>: body and orelse; \<^verbatim>\<open>Try\<close>: body, the bodies of
  the handlers, orelse and finalbody; and so on).
\<close>

datatype expr = Str string | Other_expr string

datatype stmt =
    FunctionDef string string "stmt list" "expr list"
  | AsyncFunctionDef string string "stmt list" "expr list"
  | ClassDef string "expr list" "stmt list" "expr list"
  | Expr expr
  | Pass
  | Simple string
  | Compound string "expr list" "stmt list list"

datatype module = Module "stmt list"

text \<open>
  \<^verbatim>\<open>
  if node.body and isinstance(node.body[0], ast.Expr) and isinstance(node.body[0].value, ast.Str):
      docstring = node.body[0]
      node.body = [docstring, ast.parse("pass").body[0]]
  else:
      node.body = [ast.parse("pass").body[0]]
  \<close>
\<close>

fun new_body :: "stmt list \<Rightarrow> stmt list" where
  "new_body (Expr (Str s) # rest) = [Expr (Str s), Pass]"
| "new_body body = [Pass]"

text \<open>
  \<^verbatim>\<open>FunctionBodyRemover().visit\<close>: the two visitor methods replace the body and then
  call \<^verbatim>\<open>generic_visit\<close>, which visits every child of the node; every other node gets
  \<^verbatim>\<open>generic_visit\<close> directly.
\<close>

function visit :: "stmt \<Rightarrow> stmt" where
  "visit (FunctionDef n sig body decorators) = FunctionDef n sig (map visit (new_body body)) decorators"
| "visit (AsyncFunctionDef n sig body decorators) =
     AsyncFunctionDef n sig (map visit (new_body body)) decorators"
| "visit (ClassDef n bases body decorators) = ClassDef n bases (map visit body) decorators"
| "visit (Expr e) = Expr e"
| "visit Pass = Pass"
| "visit (Simple s) = Simple s"
| "visit (Compound kind es blocks) = Compound kind es (map (map visit) blocks)"
  by pat_completeness auto
termination
proof (relation "measure size")
  show "wf (measure size)" by simp
next
  fix n sig decorators and body :: "stmt list" and x :: stmt
  assume "x \<in> set (new_body body)"
  then have "size x = 0" by (cases body rule: new_body.cases) auto
  then show "(x, FunctionDef n sig body decorators) \<in> measure size" by simp
next
  fix n sig decorators and body :: "stmt list" and x :: stmt
  assume "x \<in> set (new_body body)"
  then have "size x = 0" by (cases body rule: new_body.cases) auto
  then show "(x, AsyncFunctionDef n sig body decorators) \<in> measure size" by simp
next
  fix n bases decorators and body :: "stmt list" and x :: stmt
  assume "x \<in> set body"
  then have "size x \<le> size_list size body" by (simp add: size_list_estimation')
  then show "(x, ClassDef n bases body decorators) \<in> measure size" by simp
next
  fix kind es and blocks :: "stmt list list" and block :: "stmt list" and x :: stmt
  assume "block \<in> set blocks" "x \<in> set block"
  then have "size x \<le> size_list size block" "size_list size block \<le> size_list (size_list size) blocks"
    by (simp_all add: size_list_estimation')
  then show "(x, Compound kind es blocks) \<in> measure size" by simp
qed

fun visit_module :: "module \<Rightarrow> module" where
  "visit_module (Module body) = Module (map visit body)"

text \<open>
  An exception of the interpreter: \<^verbatim>\<open>SyntaxError\<close> with the text \<^verbatim>\<open>str(e)\<close>, which
  the function catches and prints, or any other exception, given by its class and message
  (\<^verbatim>\<open>RecursionError\<close>, \<^verbatim>\<open>ValueError\<close>, \<^verbatim>\<open>MemoryError\<close>), which it lets through.
\<close>

datatype py_exception = SyntaxError string | Other_exception string

text \<open>
  \<^verbatim>\<open>ast.parse\<close> and \<^verbatim>\<open>ast.unparse\<close> belong to the standard library and are
  parameters; each returns or raises. The visitor is a recursive Python function that
  descends into every node, expressions included, so on a tree nested more deeply than the
  interpreter's recursion limit allows it raises \<^verbatim>\<open>RecursionError\<close>; whether a tree is
  within that limit is the parameter \<open>within_recursion_limit\<close>. The result is what was
  printed and what was returned or raised.
  \<^verbatim>\<open>
  try:
      tree = ast.parse(code)
  except SyntaxError as e:
      print(f"Error: {e}")
      return code
  tree = FunctionBodyRemover().visit(tree)
  modified_code = ast.unparse(tree)
  return modified_code
  \<close>
\<close>

definition remove_function_body ::
  "(string \<Rightarrow> py_exception + module) \<Rightarrow> (module \<Rightarrow> bool) \<Rightarrow> (module \<Rightarrow> py_exception + string)
    \<Rightarrow> string \<Rightarrow> string list \<times> (py_exception + string)" where
  "remove_function_body parse within_recursion_limit unparse code =
     (case parse code of
        Inl (SyntaxError e) \<Rightarrow> ([''Error: '' @ e], Inr code)
      | Inl (Other_exception e) \<Rightarrow> ([], Inl (Other_exception e))
      | Inr tree \<Rightarrow>
          if within_recursion_limit tree then ([], unparse (visit_module tree))
          else ([], Inl (Other_exception ''RecursionError: maximum recursion depth exceeded'')))"

text \<open>
  The function definitions of a program that lie in no other function definition, in source
  order, and all function definitions of a program, nested ones included.
\<close>

fun outer_functions :: "stmt \<Rightarrow> stmt list" where
  "outer_functions (FunctionDef n sig body decorators) = [FunctionDef n sig body decorators]"
| "outer_functions (AsyncFunctionDef n sig body decorators) = [AsyncFunctionDef n sig body decorators]"
| "outer_functions (ClassDef n bases body decorators) = concat (map outer_functions body)"
| "outer_functions (Expr e) = []"
| "outer_functions Pass = []"
| "outer_functions (Simple s) = []"
| "outer_functions (Compound kind es blocks) = concat (map (\<lambda>b. concat (map outer_functions b)) blocks)"

fun all_functions :: "stmt \<Rightarrow> stmt list" where
  "all_functions (FunctionDef n sig body decorators) =
     FunctionDef n sig body decorators # concat (map all_functions body)"
| "all_functions (AsyncFunctionDef n sig body decorators) =
     AsyncFunctionDef n sig body decorators # concat (map all_functions body)"
| "all_functions (ClassDef n bases body decorators) = concat (map all_functions body)"
| "all_functions (Expr e) = []"
| "all_functions Pass = []"
| "all_functions (Simple s) = []"
| "all_functions (Compound kind es blocks) = concat (map (\<lambda>b. concat (map all_functions b)) blocks)"

fun module_body :: "module \<Rightarrow> stmt list" where
  "module_body (Module body) = body"

text \<open>
  The reduced form of a function definition in the words of the specification: the leading
  docstring statement, when the first statement of the body is a bare string literal,
  followed by one placeholder; the placeholder alone otherwise.
\<close>

fun reduced :: "stmt \<Rightarrow> stmt" where
  "reduced (FunctionDef n sig (Expr (Str s) # rest) decorators) =
     FunctionDef n sig [Expr (Str s), Pass] decorators"
| "reduced (FunctionDef n sig body decorators) = FunctionDef n sig [Pass] decorators"
| "reduced (AsyncFunctionDef n sig (Expr (Str s) # rest) decorators) =
     AsyncFunctionDef n sig [Expr (Str s), Pass] decorators"
| "reduced (AsyncFunctionDef n sig body decorators) = AsyncFunctionDef n sig [Pass] decorators"
| "reduced s = s"

text \<open>
  A tree the grammar allows, as far as the transformer can affect it: the body of a function
  or class definition is not empty, and the blocks of any other compound statement are empty
  only where \<open>shape_ok\<close>, the grammar's rule for that kind of statement, allows it.
\<close>

fun well_formed :: "(string \<Rightarrow> bool list \<Rightarrow> bool) \<Rightarrow> stmt \<Rightarrow> bool" where
  "well_formed shape_ok (FunctionDef n sig body decorators) =
     (body \<noteq> [] \<and> list_all (well_formed shape_ok) body)"
| "well_formed shape_ok (AsyncFunctionDef n sig body decorators) =
     (body \<noteq> [] \<and> list_all (well_formed shape_ok) body)"
| "well_formed shape_ok (ClassDef n bases body decorators) =
     (body \<noteq> [] \<and> list_all (well_formed shape_ok) body)"
| "well_formed shape_ok (Expr e) = True"
| "well_formed shape_ok Pass = True"
| "well_formed shape_ok (Simple s) = True"
| "well_formed shape_ok (Compound kind es blocks) =
     (shape_ok kind (map (\<lambda>b. b = []) blocks) \<and> list_all (list_all (well_formed shape_ok)) blocks)"

fun well_formed_module :: "(string \<Rightarrow> bool list \<Rightarrow> bool) \<Rightarrow> module \<Rightarrow> bool" where
  "well_formed_module shape_ok (Module body) = list_all (well_formed shape_ok) body"

text \<open>
  What \<^verbatim>\<open>ast.parse\<close>, the visitor and \<^verbatim>\<open>ast.unparse\<close> of CPython 3.11 do on the
  programs of the examples:
  \<^item> \<^verbatim>\<open>x = \<close> followed by 5000 minus signs and \<^verbatim>\<open>1\<close>: the parser raises
    \<^verbatim>\<open>RecursionError\<close>;
  \<^item> \<^verbatim>\<open>y = \<close> followed by 900 minus signs and \<^verbatim>\<open>1\<close>: the parser accepts it and the
    visitor exceeds the recursion limit;
  \<^item> \<^verbatim>\<open>def f(:\<close>: the parser raises \<^verbatim>\<open>SyntaxError\<close>;
  \<^item> a function \<^verbatim>\<open>f\<close> that returns 1, the same with the docstring \<^verbatim>\<open>'doc'\<close>, and a
    function \<^verbatim>\<open>g\<close> that defines and returns a nested function \<^verbatim>\<open>h\<close>;
  \<^item> \<^verbatim>\<open>x = 0x\<close> followed by 5000 digits \<^verbatim>\<open>f\<close>: \<^verbatim>\<open>ast.unparse\<close> raises
    \<^verbatim>\<open>ValueError\<close>;
  \<^item> the assignment of an f-string in three double quotes that holds three single quotes and
    a replacement field with a two-line string in three single quotes: \<^verbatim>\<open>ast.unparse\<close>
    renders the line break of the inner string as backslash and \<^verbatim>\<open>n\<close>, and the parser
    rejects that text.
  Other texts and trees are not in the tables.
\<close>

definition src_deep :: string where
  "src_deep = ''x = '' @ replicate 5000 (CHR ''-'') @ ''1''"

definition src_minus :: string where
  "src_minus = ''y = '' @ replicate 900 (CHR ''-'') @ ''1''"

definition src_return :: string where
  "src_return = ''def f():'' @ [newline] @ ''    return 1''"

definition src_docstring :: string where
  "src_docstring = ''def f():'' @ [newline] @ ''    '' @ [squote] @ ''doc'' @ [squote, newline]
     @ ''    return 1''"

definition src_nested :: string where
  "src_nested = ''def g():'' @ [newline] @ ''    def h():'' @ [newline] @ ''        return 1''
     @ [newline] @ ''    return h''"

definition src_hex :: string where
  "src_hex = ''z = 0x'' @ replicate 5000 (CHR ''f'')"

definition src_fstring :: string where
  "src_fstring = ''w = f'' @ [dquote, dquote, dquote, squote, squote, squote] @ ''{''
     @ [squote, squote, squote] @ ''a'' @ [newline] @ ''b'' @ [squote, squote, squote] @ ''}''
     @ [dquote, dquote, dquote]"

definition out_fstring :: string where
  "out_fstring = ''w = f'' @ [squote, squote, squote]
     @ [CHR 0x5C, squote, CHR 0x5C, squote, CHR 0x5C, squote] @ ''{''
     @ [dquote, dquote, dquote] @ ''a'' @ [CHR 0x5C] @ ''nb'' @ [dquote, dquote, dquote] @ ''}''
     @ [squote, squote, squote]"

definition out_pass_f :: string where
  "out_pass_f = ''def f():'' @ [newline] @ ''    pass''"

definition out_pass_g :: string where
  "out_pass_g = ''def g():'' @ [newline] @ ''    pass''"

definition out_docstring :: string where
  "out_docstring = ''def f():'' @ [newline] @ ''    '' @ [dquote, dquote, dquote] @ ''doc''
     @ [dquote, dquote, dquote, newline] @ ''    pass''"

definition sample_parse :: "string \<Rightarrow> py_exception + module" where
  "sample_parse code =
     (if code = src_deep
        then Inl (Other_exception ''RecursionError: maximum recursion depth exceeded during ast construction'')
      else if code = src_minus then Inr (Module [Simple src_minus])
      else if code = ''def f(:'' then Inl (SyntaxError ''invalid syntax (<unknown>, line 1)'')
      else if code = src_return
        then Inr (Module [FunctionDef ''f'' ''()'' [Simple ''return 1''] []])
      else if code = src_docstring
        then Inr (Module [FunctionDef ''f'' ''()'' [Expr (Str ''doc''), Simple ''return 1''] []])
      else if code = src_nested
        then Inr (Module [FunctionDef ''g'' ''()''
               [FunctionDef ''h'' ''()'' [Simple ''return 1''] [], Simple ''return h''] []])
      else if code = src_hex then Inr (Module [Simple src_hex])
      else if code = src_fstring then Inr (Module [Simple src_fstring])
      else if code = out_fstring
        then Inl (SyntaxError ''f-string expression part cannot include a backslash (<unknown>, line 1)'')
      else Inl (Other_exception ''not in the table''))"

definition sample_within_recursion_limit :: "module \<Rightarrow> bool" where
  "sample_within_recursion_limit tree = (tree \<noteq> Module [Simple src_minus])"

definition sample_unparse :: "module \<Rightarrow> py_exception + string" where
  "sample_unparse tree =
     (if tree = Module [FunctionDef ''f'' ''()'' [Pass] []] then Inr out_pass_f
      else if tree = Module [FunctionDef ''f'' ''()'' [Expr (Str ''doc''), Pass] []]
        then Inr out_docstring
      else if tree = Module [FunctionDef ''g'' ''()'' [Pass] []] then Inr out_pass_g
      else if tree = Module [Simple src_hex]
        then Inl (Other_exception ''ValueError: Exceeds the limit (4300 digits) for integer string conversion; use sys.set_int_max_str_digits() to increase the limit'')
      else if tree = Module [Simple src_fstring] then Inr out_fstring
      else Inl (Other_exception ''not in the table''))"

section \<open>remove_comments_and_docstrings\<close>

text \<open>
  The tokens of the \<^verbatim>\<open>tokenize\<close> module: type, text, and the (line, column) pairs
  where the token starts and ends. Lines count from 1 and columns from 0.
\<close>

datatype token_type =
    ENDMARKER | NAME | NUMBER | STRING | NEWLINE | INDENT | DEDENT | OP | COMMENT | NL
  | ERRORTOKEN | FSTRING_START | FSTRING_MIDDLE | FSTRING_END

datatype token =
  Token (toktype: token_type) (tokstring: string) (tokstart: "int \<times> int") (tokend: "int \<times> int")

datatype tokenize_error = TokenError string | IndentationError string

text \<open>
  The state of the loop: the pieces collected so far, the type of the previous token, and
  the line and column where it ended.
\<close>

record strip_state =
  clean_code_lines :: "string list"
  prev_toktype :: token_type
  last_lineno :: int
  last_col :: int

text \<open>
  \<^verbatim>\<open>
  if start_line > last_lineno:
      last_col = 0
  if start_col > last_col:
      clean_code_lines.append(" " * (start_col - last_col))
  \<close>
\<close>

definition gap :: "int \<times> int \<Rightarrow> token \<Rightarrow> string list" where
  "gap ended tok =
     (let start_line = fst (tokstart tok); start_col = snd (tokstart tok);
          col = (if start_line > fst ended then 0 else snd ended)
      in if start_col > col then [replicate (nat (start_col - col)) space] else [])"

definition triple_quoted :: "string \<Rightarrow> bool" where
  "triple_quoted token_string =
     (take 3 token_string = [dquote, dquote, dquote] \<or> take 3 token_string = [squote, squote, squote])"

text \<open>
  \<^verbatim>\<open>
  if token_type == tokenize.COMMENT:
      pass
  elif token_type == tokenize.STRING:
      if prev_toktype != tokenize.INDENT:
          # The triple-quoted string is not a docstring, so include it
          if token_string[:3] not in ('"""', "'''"):
              clean_code_lines.append(token_string)
  else:
      clean_code_lines.append(token_string)
  \<close>
\<close>

definition emitted :: "token_type \<Rightarrow> token \<Rightarrow> string list" where
  "emitted prev tok =
     (if toktype tok = COMMENT then []
      else if toktype tok = STRING then
        (if prev \<noteq> INDENT then
           (if \<not> triple_quoted (tokstring tok) then [tokstring tok] else [])
         else [])
      else [tokstring tok])"

definition strip_step :: "strip_state \<Rightarrow> token \<Rightarrow> strip_state" where
  "strip_step st tok =
     \<lparr>clean_code_lines =
        clean_code_lines st @ gap (last_lineno st, last_col st) tok @ emitted (prev_toktype st) tok,
      prev_toktype = toktype tok,
      last_lineno = fst (tokend tok),
      last_col = snd (tokend tok)\<rparr>"

definition strip_init :: strip_state where
  "strip_init = \<lparr>clean_code_lines = [], prev_toktype = INDENT, last_lineno = - 1, last_col = 0\<rparr>"

text \<open>
  \<^verbatim>\<open>tokenize.generate_tokens\<close> belongs to the standard library and is a parameter. When
  it raises, the exception leaves the function and nothing is returned.
\<close>

definition remove_comments_and_docstrings ::
  "(string \<Rightarrow> tokenize_error + token list) \<Rightarrow> string \<Rightarrow> tokenize_error + string" where
  "remove_comments_and_docstrings tokenize code =
     (case tokenize code of
        Inl e \<Rightarrow> Inl e
      | Inr toks \<Rightarrow> Inr (concat (clean_code_lines (foldl strip_step strip_init toks))))"

text \<open>
  Each token together with what the loop knows when it reaches it: the type of the token
  before it (\<^verbatim>\<open>INDENT\<close> for the first token) and where that token ended (line \<open>-1\<close>,
  column 0 for the first).
\<close>

definition contexts :: "token list \<Rightarrow> (token_type \<times> (int \<times> int) \<times> token) list" where
  "contexts toks = zip (INDENT # map toktype toks) (zip ((- 1, 0) # map tokend toks) toks)"


text \<open>
  The tokens the standard tokenizer yields for the programs of the examples (CPython 3.11):
  \<^item> \<^verbatim>\<open>if x:\<close> with the body \<^verbatim>\<open>'abc'\<close>;
  \<^item> \<^verbatim>\<open>def f(): 'doc'\<close> on one line;
  \<^item> \<^verbatim>\<open>x = """abc"""\<close>;
  \<^item> \<^verbatim>\<open>def f():\<close> with the body \<^verbatim>\<open>"""doc"""\<close>, \<^verbatim>\<open>'second'\<close>, and the same
    program with the first body line blank;
  \<^item> \<^verbatim>\<open>x = 1  # c\<close>, and \<^verbatim>\<open>x = 1\<close> followed by two spaces.
  Every program ends with a newline. Other texts are not in the table.
\<close>

definition src_if_string :: string where
  "src_if_string = ''if x:'' @ [newline] @ ''    '' @ [squote] @ ''abc'' @ [squote, newline]"

definition src_oneline_def :: string where
  "src_oneline_def = ''def f(): '' @ [squote] @ ''doc'' @ [squote, newline]"

definition src_triple_assign :: string where
  "src_triple_assign = ''x = '' @ [dquote, dquote, dquote] @ ''abc'' @ [dquote, dquote, dquote, newline]"

definition src_doc_second :: string where
  "src_doc_second = ''def f():'' @ [newline] @ ''    '' @ [dquote, dquote, dquote] @ ''doc''
     @ [dquote, dquote, dquote, newline] @ ''    '' @ [squote] @ ''second'' @ [squote, newline]"

definition src_blank_second :: string where
  "src_blank_second = ''def f():'' @ [newline] @ ''    '' @ [newline]
     @ ''    '' @ [squote] @ ''second'' @ [squote, newline]"

definition src_comment :: string where
  "src_comment = ''x = 1  # c'' @ [newline]"

definition src_no_comment :: string where
  "src_no_comment = ''x = 1  '' @ [newline]"

definition toks_if_string :: "token list" where
  "toks_if_string =
    [Token NAME ''if'' (1, 0) (1, 2), Token NAME ''x'' (1, 3) (1, 4),
     Token OP '':'' (1, 4) (1, 5), Token NEWLINE [newline] (1, 5) (1, 6),
     Token INDENT ''    '' (2, 0) (2, 4),
     Token STRING ([squote] @ ''abc'' @ [squote]) (2, 4) (2, 9),
     Token NEWLINE [newline] (2, 9) (2, 10),
     Token DEDENT [] (3, 0) (3, 0), Token ENDMARKER [] (3, 0) (3, 0)]"

definition toks_oneline_def :: "token list" where
  "toks_oneline_def =
    [Token NAME ''def'' (1, 0) (1, 3), Token NAME ''f'' (1, 4) (1, 5),
     Token OP ''('' (1, 5) (1, 6), Token OP '')'' (1, 6) (1, 7), Token OP '':'' (1, 7) (1, 8),
     Token STRING ([squote] @ ''doc'' @ [squote]) (1, 9) (1, 14),
     Token NEWLINE [newline] (1, 14) (1, 15), Token ENDMARKER [] (2, 0) (2, 0)]"

definition toks_triple_assign :: "token list" where
  "toks_triple_assign =
    [Token NAME ''x'' (1, 0) (1, 1), Token OP ''='' (1, 2) (1, 3),
     Token STRING ([dquote, dquote, dquote] @ ''abc'' @ [dquote, dquote, dquote]) (1, 4) (1, 13),
     Token NEWLINE [newline] (1, 13) (1, 14), Token ENDMARKER [] (2, 0) (2, 0)]"

definition toks_doc_second :: "token list" where
  "toks_doc_second =
    [Token NAME ''def'' (1, 0) (1, 3), Token NAME ''f'' (1, 4) (1, 5),
     Token OP ''('' (1, 5) (1, 6), Token OP '')'' (1, 6) (1, 7), Token OP '':'' (1, 7) (1, 8),
     Token NEWLINE [newline] (1, 8) (1, 9),
     Token INDENT ''    '' (2, 0) (2, 4),
     Token STRING ([dquote, dquote, dquote] @ ''doc'' @ [dquote, dquote, dquote]) (2, 4) (2, 13),
     Token NEWLINE [newline] (2, 13) (2, 14),
     Token STRING ([squote] @ ''second'' @ [squote]) (3, 4) (3, 12),
     Token NEWLINE [newline] (3, 12) (3, 13),
     Token DEDENT [] (4, 0) (4, 0), Token ENDMARKER [] (4, 0) (4, 0)]"

definition toks_blank_second :: "token list" where
  "toks_blank_second =
    [Token NAME ''def'' (1, 0) (1, 3), Token NAME ''f'' (1, 4) (1, 5),
     Token OP ''('' (1, 5) (1, 6), Token OP '')'' (1, 6) (1, 7), Token OP '':'' (1, 7) (1, 8),
     Token NEWLINE [newline] (1, 8) (1, 9),
     Token NL [newline] (2, 4) (2, 5),
     Token INDENT ''    '' (3, 0) (3, 4),
     Token STRING ([squote] @ ''second'' @ [squote]) (3, 4) (3, 12),
     Token NEWLINE [newline] (3, 12) (3, 13),
     Token DEDENT [] (4, 0) (4, 0), Token ENDMARKER [] (4, 0) (4, 0)]"

definition toks_comment :: "token list" where
  "toks_comment =
    [Token NAME ''x'' (1, 0) (1, 1), Token OP ''='' (1, 2) (1, 3),
     Token NUMBER ''1'' (1, 4) (1, 5), Token COMMENT ''# c'' (1, 7) (1, 10),
     Token NEWLINE [newline] (1, 10) (1, 11), Token ENDMARKER [] (2, 0) (2, 0)]"

definition toks_no_comment :: "token list" where
  "toks_no_comment =
    [Token NAME ''x'' (1, 0) (1, 1), Token OP ''='' (1, 2) (1, 3),
     Token NUMBER ''1'' (1, 4) (1, 5),
     Token NEWLINE [newline] (1, 7) (1, 8), Token ENDMARKER [] (2, 0) (2, 0)]"

definition sample_tokenize :: "string \<Rightarrow> tokenize_error + token list" where
  "sample_tokenize code =
     (if code = src_if_string then Inr toks_if_string
      else if code = src_oneline_def then Inr toks_oneline_def
      else if code = src_triple_assign then Inr toks_triple_assign
      else if code = src_doc_second then Inr toks_doc_second
      else if code = src_blank_second then Inr toks_blank_second
      else if code = src_comment then Inr toks_comment
      else if code = src_no_comment then Inr toks_no_comment
      else Inl (TokenError ''not in the table''))"


section \<open>save_settings and load_settings\<close>

subsection \<open>The string operations of Python that the two functions use\<close>

abbreviation carriage_return :: char where
  "carriage_return \<equiv> CHR 0x0D"

text \<open>\<^verbatim>\<open>str.isspace\<close> on a character below code point 256.\<close>

definition py_isspace :: "char \<Rightarrow> bool" where
  "py_isspace c = ((of_char c :: nat) \<in> {9, 10, 11, 12, 13, 28, 29, 30, 31, 32, 133, 160})"

definition py_strip :: "string \<Rightarrow> string" where
  "py_strip s = rev (dropWhile py_isspace (rev (dropWhile py_isspace s)))"

text \<open>\<^verbatim>\<open>s.split()\<close>: the maximal runs of characters that are not whitespace.\<close>

function py_split :: "string \<Rightarrow> string list" where
  "py_split s =
     (let t = dropWhile py_isspace s in
      if t = [] then []
      else takeWhile (\<lambda>c. \<not> py_isspace c) t # py_split (dropWhile (\<lambda>c. \<not> py_isspace c) t))"
  by pat_completeness auto
termination
proof (relation "measure length")
  show "wf (measure length)" by simp
next
  fix s t :: string
  assume t: "t = dropWhile py_isspace s" and ne: "t \<noteq> []"
  from ne obtain c r where cr: "t = c # r" by (cases t) auto
  have "\<not> py_isspace (hd (dropWhile py_isspace s))"
    using t ne hd_dropWhile[of py_isspace s] by simp
  moreover have "hd (dropWhile py_isspace s) = c" using t cr by (metis list.sel(1))
  ultimately have "\<not> py_isspace c" by simp
  then have "dropWhile (\<lambda>c. \<not> py_isspace c) t = dropWhile (\<lambda>c. \<not> py_isspace c) r"
    using cr by simp
  moreover have "length (dropWhile (\<lambda>c. \<not> py_isspace c) r) \<le> length r"
    by (rule length_dropWhile_le)
  moreover have "length t \<le> length s" using t by (simp add: length_dropWhile_le)
  ultimately show "(dropWhile (\<lambda>c. \<not> py_isspace c) t, s) \<in> measure length"
    using cr by simp
qed

definition startswith :: "string \<Rightarrow> string \<Rightarrow> bool" where
  "startswith s p = (take (length p) s = p)"

text \<open>
  \<^verbatim>\<open>s.replace(old, new)\<close> for a non-empty \<^verbatim>\<open>old\<close>: the occurrences are found from
  left to right and do not overlap.
\<close>

function py_replace :: "string \<Rightarrow> string \<Rightarrow> string \<Rightarrow> string" where
  "py_replace old new [] = []"
| "py_replace old new (c # cs) =
     (if old \<noteq> [] \<and> startswith (c # cs) old
      then new @ py_replace old new (drop (length old) (c # cs))
      else c # py_replace old new cs)"
  by pat_completeness auto
termination
  by (relation "measure (\<lambda>(old, new, s). length s)") auto

text \<open>
  \<^verbatim>\<open>s.split(sep)\<close> for a non-empty separator, with the piece read so far.
\<close>

function split_from :: "string \<Rightarrow> string \<Rightarrow> string \<Rightarrow> string list" where
  "split_from sep piece [] = [piece]"
| "split_from sep piece (c # cs) =
     (if sep \<noteq> [] \<and> startswith (c # cs) sep
      then piece # split_from sep [] (drop (length sep) (c # cs))
      else split_from sep (piece @ [c]) cs)"
  by pat_completeness auto
termination
  by (relation "measure (\<lambda>(sep, piece, s). length s)") auto

definition py_split_sep :: "string \<Rightarrow> string \<Rightarrow> string list" where
  "py_split_sep s sep = split_from sep [] s"

text \<open>\<^verbatim>\<open>sep.join(xs)\<close>.\<close>

fun py_join :: "string \<Rightarrow> string list \<Rightarrow> string" where
  "py_join sep [] = []"
| "py_join sep [x] = x"
| "py_join sep (x # y # ys) = x @ sep @ py_join sep (y # ys)"

text \<open>\<^verbatim>\<open>str(n)\<close> for a length, and \<^verbatim>\<open>str(b)\<close> for a truth value.\<close>

definition digit_char :: "nat \<Rightarrow> char" where
  "digit_char d = char_of (48 + d)"

fun str_nat :: "nat \<Rightarrow> string" where
  "str_nat n = (if n < 10 then [digit_char n] else str_nat (n div 10) @ [digit_char (n mod 10)])"

definition str_bool :: "bool \<Rightarrow> string" where
  "str_bool b = (if b then ''True'' else ''False'')"

text \<open>
  \<^verbatim>\<open>int(s)\<close>: surrounding whitespace is ignored; then an optional sign and decimal
  digits, where single underscores may stand between digits. Anything else raises
  \<^verbatim>\<open>ValueError\<close>, here \<open>None\<close>, and so does a literal of more digits than
  \<^verbatim>\<open>sys.int_max_str_digits\<close>, which is 4300 unless the user changes it; the sign and the
  underscores do not count.
\<close>

definition int_max_str_digits :: nat where
  "int_max_str_digits = 4300"

definition is_digit :: "char \<Rightarrow> bool" where
  "is_digit c = (48 \<le> (of_char c :: nat) \<and> (of_char c :: nat) \<le> 57)"

fun parse_digits :: "string \<Rightarrow> nat \<Rightarrow> nat option" where
  "parse_digits [] acc = Some acc"
| "parse_digits (c # cs) acc =
     (if is_digit c then parse_digits cs (10 * acc + (of_char c - 48))
      else if c = CHR ''_'' \<and> cs \<noteq> [] \<and> is_digit (hd cs) then parse_digits cs acc
      else None)"

definition parse_unsigned :: "string \<Rightarrow> nat option" where
  "parse_unsigned s =
     (if s \<noteq> [] \<and> is_digit (hd s) \<and> length (filter is_digit s) \<le> int_max_str_digits
      then parse_digits s 0 else None)"

definition py_int :: "string \<Rightarrow> int option" where
  "py_int s =
     (case py_strip s of
        [] \<Rightarrow> None
      | c # cs \<Rightarrow>
          if c = CHR ''-'' then map_option (\<lambda>n. - int n) (parse_unsigned cs)
          else if c = CHR ''+'' then map_option int (parse_unsigned cs)
          else map_option int (parse_unsigned (c # cs)))"

subsection \<open>The settings file\<close>

text \<open>
  A text file opened for reading translates \<^verbatim>\<open>\r\n\<close> and a lone \<^verbatim>\<open>\r\<close> to
  \<^verbatim>\<open>\n\<close>. \<^verbatim>\<open>readline\<close> returns the text up to and including the next newline, or
  what is left of the file, and moves on.
\<close>

fun universal_newlines :: "string \<Rightarrow> string" where
  "universal_newlines [] = []"
| "universal_newlines [c] = (if c = carriage_return then [newline] else [c])"
| "universal_newlines (c # d # cs) =
     (if c = carriage_return \<and> d = newline then newline # universal_newlines cs
      else if c = carriage_return then newline # universal_newlines (d # cs)
      else c # universal_newlines (d # cs))"

definition readline :: "string \<Rightarrow> string \<times> string" where
  "readline f =
     (case dropWhile (\<lambda>c. c \<noteq> newline) f of
        [] \<Rightarrow> (f, [])
      | c # rest \<Rightarrow> (takeWhile (\<lambda>c. c \<noteq> newline) f @ [newline], rest))"

definition DEFAULT_IGNORED_FOLDERS :: "string set" where
  "DEFAULT_IGNORED_FOLDERS = {''.git'', ''.idea'', ''__pycache__'', ''venv'', ''img'', ''assessment''}"

definition DEFAULT_IGNORED_FILES :: "string set" where
  "DEFAULT_IGNORED_FILES =
     {''.gitignore'', ''treegen4gpt.py'', ''README.md'', ''LICENSE'', ''requirements.txt''}"

text \<open>
  \<^verbatim>\<open>save_settings\<close>. The dictionary \<^verbatim>\<open>selected_files\<close> is the list of its items in
  iteration order; the other two dictionaries are only looked up. A set is the list of its
  elements in iteration order. \<open>str_of\<close> is \<^verbatim>\<open>str\<close> on a path. The result is the text
  written to the file.
\<close>

definition save_file_line ::
  "('p \<Rightarrow> string) \<Rightarrow> ('p \<rightharpoonup> bool) \<Rightarrow> ('p \<rightharpoonup> bool) \<Rightarrow> 'p \<times> bool \<Rightarrow> string" where
  "save_file_line str_of remove_comments remove_functions item =
     (case (remove_comments (fst item), remove_functions (fst item)) of
        (Some rc, Some rf) \<Rightarrow>
          str_of (fst item) @ '' '' @ str_bool (snd item) @ '' '' @ str_bool rc @ '' ''
            @ str_bool rf @ [newline]
      | _ \<Rightarrow> [])"

definition save_settings ::
  "('p \<Rightarrow> string) \<Rightarrow> string \<Rightarrow> ('p \<times> bool) list \<Rightarrow> ('p \<rightharpoonup> bool) \<Rightarrow> ('p \<rightharpoonup> bool)
    \<Rightarrow> string list \<Rightarrow> string list \<Rightarrow> string" where
  "save_settings str_of description selected_files remove_comments remove_functions
      ignored_folders ignored_files =
     py_replace [newline] ''<newline>'' description @ [newline]
     @ str_nat (length selected_files) @ [newline]
     @ concat (map (save_file_line str_of remove_comments remove_functions) selected_files)
     @ py_join '', '' ignored_folders @ [newline]
     @ py_join '', '' ignored_files @ [newline]"

text \<open>The tuple that \<^verbatim>\<open>load_settings\<close> returns, its components in order.\<close>

record 'p settings =
  s_description :: string
  s_selected_files :: "'p \<rightharpoonup> bool"
  s_remove_comments :: "'p \<rightharpoonup> bool"
  s_remove_functions :: "'p \<rightharpoonup> bool"
  s_ignored_folders :: "string set"
  s_ignored_files :: "string set"

datatype load_error = ValueError

text \<open>
  The loop \<^verbatim>\<open>for i in range(num_files)\<close>: the three dictionaries and the rest of the
  file. \<open>path_of\<close> is the constructor \<^verbatim>\<open>Path\<close>.
\<close>

fun load_files ::
  "(string \<Rightarrow> 'p) \<Rightarrow> nat \<Rightarrow> ('p \<rightharpoonup> bool) \<times> ('p \<rightharpoonup> bool) \<times> ('p \<rightharpoonup> bool) \<times> string
    \<Rightarrow> ('p \<rightharpoonup> bool) \<times> ('p \<rightharpoonup> bool) \<times> ('p \<rightharpoonup> bool) \<times> string" where
  "load_files path_of 0 st = st"
| "load_files path_of (Suc n) (sel, rc, rf, f) =
     (let line = py_split (py_strip (fst (readline f))); f' = snd (readline f) in
      if 4 \<le> length line
      then load_files path_of n
             (sel(path_of (line ! 0) \<mapsto> (line ! 1 = ''True'')),
              rc(path_of (line ! 0) \<mapsto> (line ! 2 = ''True'')),
              rf(path_of (line ! 0) \<mapsto> (line ! 3 = ''True'')), f')
      else load_files path_of n (sel, rc, rf, f'))"

text \<open>
  \<^verbatim>\<open>load_settings\<close>, given the content of the settings file, or \<open>None\<close> when the file
  does not exist.
\<close>

definition load_settings :: "(string \<Rightarrow> 'p) \<Rightarrow> string option \<Rightarrow> load_error + 'p settings option" where
  "load_settings path_of file =
     (case file of
        None \<Rightarrow> Inr None
      | Some content \<Rightarrow>
          (let f0 = universal_newlines content;
               description = py_replace ''<newline>'' [newline] (py_strip (fst (readline f0)));
               f1 = snd (readline f0)
           in case py_int (py_strip (fst (readline f1))) of
                None \<Rightarrow> Inl ValueError
              | Some num_files \<Rightarrow>
                  (case load_files path_of (nat num_files)
                          (Map.empty, Map.empty, Map.empty, snd (readline f1)) of
                     (sel, rc, rf, f3) \<Rightarrow>
                       (let ignored_folders_line = py_strip (fst (readline f3));
                            ignored_files_line = py_strip (fst (readline (snd (readline f3))))
                        in Inr (Some
                             \<lparr>s_description = description,
                              s_selected_files = sel,
                              s_remove_comments = rc,
                              s_remove_functions = rf,
                              s_ignored_folders =
                                (if ignored_folders_line \<noteq> []
                                 then set (py_split_sep ignored_folders_line '', '')
                                 else DEFAULT_IGNORED_FOLDERS),
                              s_ignored_files =
                                (if ignored_files_line \<noteq> []
                                 then set (py_split_sep ignored_files_line '', '')
                                 else DEFAULT_IGNORED_FILES)\<rparr>)))))"

subsection \<open>What a settings file can hold\<close>

text \<open>Whether the text \<open>p\<close> occurs in \<open>s\<close>.\<close>

fun contains :: "string \<Rightarrow> string \<Rightarrow> bool" where
  "contains [] p = (p = [])"
| "contains (c # cs) p = (startswith (c # cs) p \<or> contains cs p)"

text \<open>
  The description as \<^verbatim>\<open>save_settings\<close> writes it: each newline character becomes the
  marker.
\<close>

definition encode :: "string \<Rightarrow> string" where
  "encode d = concat (map (\<lambda>c. if c = newline then ''<newline>'' else [c]) d)"

text \<open>The line of one file, without its newline.\<close>

definition file_line :: "('p \<Rightarrow> string) \<Rightarrow> 'p \<Rightarrow> bool \<Rightarrow> bool \<Rightarrow> bool \<Rightarrow> string" where
  "file_line str_of p v c f =
     str_of p @ '' '' @ str_bool v @ '' '' @ str_bool c @ '' '' @ str_bool f"

text \<open>
  A path survives the file when the constructor \<^verbatim>\<open>Path\<close> gives it back from its
  \<^verbatim>\<open>str\<close>, and that text is not empty and holds no whitespace.
\<close>

definition storable_path :: "('p \<Rightarrow> string) \<Rightarrow> (string \<Rightarrow> 'p) \<Rightarrow> 'p \<Rightarrow> bool" where
  "storable_path str_of path_of p =
     (path_of (str_of p) = p \<and> str_of p \<noteq> [] \<and> list_all (\<lambda>c. \<not> py_isspace c) (str_of p))"

text \<open>
  A description survives when it holds no carriage return and no text \<^verbatim>\<open><newline>\<close>
  of its own, and neither begins nor ends with a whitespace character other than a newline.
\<close>

definition storable_description :: "string \<Rightarrow> bool" where
  "storable_description d =
     (carriage_return \<notin> set d \<and> \<not> contains d ''<newline>'' \<and>
      (d = [] \<or> ((hd d = newline \<or> \<not> py_isspace (hd d)) \<and> (last d = newline \<or> \<not> py_isspace (last d)))))"

text \<open>
  An exclusion set, given in iteration order, survives when no element holds the separator
  (comma, space), a newline or a carriage return, and the joined line is not empty and
  neither begins nor ends with whitespace.
\<close>

definition storable_names :: "string list \<Rightarrow> bool" where
  "storable_names xs =
     (list_all (\<lambda>x. \<not> contains x '', '' \<and> newline \<notin> set x \<and> carriage_return \<notin> set x) xs \<and>
      py_join '', '' xs \<noteq> [] \<and>
      \<not> py_isspace (hd (py_join '', '' xs)) \<and> \<not> py_isspace (last (py_join '', '' xs)))"

section \<open>Verified properties\<close>

subsection \<open>remove_comments_and_docstrings\<close>

lemma strip_step_fields:
  "clean_code_lines (strip_step st tok) =
     clean_code_lines st @ gap (last_lineno st, last_col st) tok @ emitted (prev_toktype st) tok"
  "prev_toktype (strip_step st tok) = toktype tok"
  "last_lineno (strip_step st tok) = fst (tokend tok)"
  "last_col (strip_step st tok) = snd (tokend tok)"
  by (simp_all add: strip_step_def)

lemma foldl_strip_step:
  "clean_code_lines (foldl strip_step st toks) =
     clean_code_lines st @
       concat (map (\<lambda>(prev, ended, tok). gap ended tok @ emitted prev tok)
         (zip (prev_toktype st # map toktype toks)
              (zip ((last_lineno st, last_col st) # map tokend toks) toks)))"
proof (induction toks arbitrary: st)
  case Nil
  then show ?case by simp
next
  case (Cons t toks)
  have "clean_code_lines (foldl strip_step st (t # toks)) =
      clean_code_lines (foldl strip_step (strip_step st t) toks)"
    by simp
  also have "\<dots> = clean_code_lines (strip_step st t) @
       concat (map (\<lambda>(prev, ended, tok). gap ended tok @ emitted prev tok)
         (zip (prev_toktype (strip_step st t) # map toktype toks)
              (zip ((last_lineno (strip_step st t), last_col (strip_step st t)) # map tokend toks) toks)))"
    by (rule Cons.IH)
  finally show ?case by (simp add: strip_step_fields)
qed

lemma concat_pieces:
  "concat (concat (map (\<lambda>(prev, ended, tok). gap ended tok @ emitted prev tok) cs)) =
   concat (map (\<lambda>(prev, ended, tok). concat (gap ended tok) @ concat (emitted prev tok)) cs)"
  by (induction cs) auto

lemma strip_eval:
  "remove_comments_and_docstrings tokenize code =
     (case tokenize code of Inl e \<Rightarrow> Inl e
      | Inr toks \<Rightarrow> Inr (concat (map (\<lambda>(prev, ended, tok). concat (gap ended tok) @ concat (emitted prev tok))
        (contexts toks))))"
  by (simp add: remove_comments_and_docstrings_def foldl_strip_step strip_init_def contexts_def
        concat_pieces split: sum.splits)

lemmas src_defs = src_if_string_def src_oneline_def_def src_triple_assign_def src_doc_second_def
  src_blank_second_def src_comment_def src_no_comment_def

lemma sample_tokenize_table:
  "sample_tokenize src_if_string = Inr toks_if_string"
  "sample_tokenize src_oneline_def = Inr toks_oneline_def"
  "sample_tokenize src_triple_assign = Inr toks_triple_assign"
  "sample_tokenize src_doc_second = Inr toks_doc_second"
  "sample_tokenize src_blank_second = Inr toks_blank_second"
  "sample_tokenize src_comment = Inr toks_comment"
  "sample_tokenize src_no_comment = Inr toks_no_comment"
  by (simp_all add: sample_tokenize_def src_defs)

lemmas strip_simps = strip_eval sample_tokenize_table contexts_def gap_def emitted_def triple_quoted_def
  eval_nat_numeral

lemma strip_if_string:
  "remove_comments_and_docstrings sample_tokenize src_if_string =
     Inr (''if x:'' @ [newline] @ ''    '' @ [newline])"
  by (simp add: strip_simps toks_if_string_def)

lemma strip_oneline_def:
  "remove_comments_and_docstrings sample_tokenize src_oneline_def = Inr src_oneline_def"
proof -
  have "remove_comments_and_docstrings sample_tokenize src_oneline_def =
      Inr (''def f(): '' @ [squote] @ ''doc'' @ [squote, newline])"
    by (simp add: strip_simps toks_oneline_def_def)
  then show ?thesis by (simp add: src_oneline_def_def)
qed




text \<open>
  The statement \<^verbatim>\<open>x = """abc"""\<close> loses its right-hand side: the loop leaves out every
  string that starts with three quotes, also where the type of the previous token shows
  that it is no docstring, although the comment on that branch says to include it.
\<close>

lemma strip_triple_assign:
  "remove_comments_and_docstrings sample_tokenize src_triple_assign = Inr (''x = '' @ [newline])"
  by (simp add: strip_simps toks_triple_assign_def)

text \<open>
  Claim C1, as amended. The output is the concatenation, token by token, of a run of spaces
  and of what the loop emits for the token. It emits nothing for a comment and nothing for a
  string that is the first token or comes directly after an \<^verbatim>\<open>INDENT\<close> token, which
  is how the loop recognises a docstring; it emits the text of a string that does not start
  with three quotes and follows any other token, and the text of every token that is neither
  a comment nor a string. The run of spaces before a token, emitted or not, is as long as the
  token's start column exceeds the column where the previous token ended, or exceeds 0 when
  the token starts on a later line than the previous token ended. The previous token counts
  whether or not it was emitted, so what follows a removed token on its line moves left by
  the width of the removed text.
\<close>

theorem remove_comments_and_docstrings_tokens:
  assumes "tokenize code = Inr toks"
  shows "remove_comments_and_docstrings tokenize code =
      Inr (concat (map (\<lambda>(prev, ended, tok). concat (gap ended tok) @ concat (emitted prev tok))
        (contexts toks))) \<and>
    (\<forall>(prev, ended, tok) \<in> set (contexts toks).
       (toktype tok = COMMENT \<longrightarrow> emitted prev tok = []) \<and>
       (toktype tok = STRING \<and> prev = INDENT \<longrightarrow> emitted prev tok = []) \<and>
       (toktype tok = STRING \<and> prev \<noteq> INDENT \<and> \<not> triple_quoted (tokstring tok) \<longrightarrow>
          emitted prev tok = [tokstring tok]) \<and>
       (toktype tok \<noteq> COMMENT \<and> toktype tok \<noteq> STRING \<longrightarrow> emitted prev tok = [tokstring tok]) \<and>
       concat (gap ended tok) =
         replicate (nat (snd (tokstart tok) -
           (if fst ended < fst (tokstart tok) then 0 else snd ended))) space)"
proof
  show "remove_comments_and_docstrings tokenize code =
      Inr (concat (map (\<lambda>(prev, ended, tok). concat (gap ended tok) @ concat (emitted prev tok))
        (contexts toks)))"
    using assms
    by (simp add: remove_comments_and_docstrings_def foldl_strip_step strip_init_def contexts_def
        concat_pieces)
next
  show "\<forall>(prev, ended, tok) \<in> set (contexts toks).
       (toktype tok = COMMENT \<longrightarrow> emitted prev tok = []) \<and>
       (toktype tok = STRING \<and> prev = INDENT \<longrightarrow> emitted prev tok = []) \<and>
       (toktype tok = STRING \<and> prev \<noteq> INDENT \<and> \<not> triple_quoted (tokstring tok) \<longrightarrow>
          emitted prev tok = [tokstring tok]) \<and>
       (toktype tok \<noteq> COMMENT \<and> toktype tok \<noteq> STRING \<longrightarrow> emitted prev tok = [tokstring tok]) \<and>
       concat (gap ended tok) =
         replicate (nat (snd (tokstart tok) -
           (if fst ended < fst (tokstart tok) then 0 else snd ended))) space"
    by (auto simp: emitted_def gap_def Let_def)
qed

text \<open>
  The comment of \<^verbatim>\<open>x = 1  # c\<close> is removed; the two spaces before it stay, and the
  newline that followed it at column 10 is written at column 7.
\<close>

theorem remove_comments_and_docstrings_tokens_witness:
  "sample_tokenize src_comment = Inr toks_comment \<and>
   remove_comments_and_docstrings sample_tokenize src_comment = Inr (''x = 1  '' @ [newline])"
proof -
  have t: "sample_tokenize src_comment = Inr toks_comment"
    by (rule sample_tokenize_table)
  from remove_comments_and_docstrings_tokens[where tokenize = sample_tokenize
      and code = src_comment and toks = toks_comment, OF t]
  have "remove_comments_and_docstrings sample_tokenize src_comment =
      Inr (concat (map (\<lambda>(prev, ended, tok). concat (gap ended tok) @ concat (emitted prev tok))
        (contexts toks_comment)))"
    by (rule conjunct1)
  then show ?thesis using t
    by (simp add: toks_comment_def contexts_def gap_def emitted_def triple_quoted_def eval_nat_numeral)
qed

text \<open>
  Claim C1 as stated fails in both directions. The string statement \<^verbatim>\<open>'abc'\<close> that
  opens the body of an \<^verbatim>\<open>if\<close> is in no docstring position, yet it follows
  \<^verbatim>\<open>INDENT\<close> and is removed. The docstring of \<^verbatim>\<open>def f(): 'doc'\<close> follows the colon
  on the same line, not an \<^verbatim>\<open>INDENT\<close>, and is kept: the output is the input.
\<close>

theorem remove_comments_and_docstrings_position_counterexample:
  "remove_comments_and_docstrings sample_tokenize src_if_string =
     Inr (''if x:'' @ [newline] @ ''    '' @ [newline]) \<and>
   remove_comments_and_docstrings sample_tokenize src_oneline_def = Inr src_oneline_def"
  by (simp only: strip_if_string strip_oneline_def)









subsection \<open>remove_extra_line_jumps\<close>

lemma last_dropWhile_newline:
  assumes "xs \<noteq> []" "last xs \<noteq> newline"
  shows "dropWhile (\<lambda>x. x = newline) xs \<noteq> [] \<and> last (dropWhile (\<lambda>x. x = newline) xs) = last xs"
  using assms by (induction xs) (auto split: if_splits)

lemma remove_extra_line_jumps_append:
  "xs = [] \<or> last xs \<noteq> newline \<Longrightarrow>
   remove_extra_line_jumps (xs @ zs) = remove_extra_line_jumps xs @ remove_extra_line_jumps zs"
proof (induction xs rule: remove_extra_line_jumps.induct)
  case 1
  then show ?case by simp
next
  case (2 c cs)
  let ?P = "\<lambda>x. x = newline"
  from "2.prems" have lst: "last (c # cs) \<noteq> newline" by simp
  have mem: "last (c # cs) \<in> set (c # cs)" by (rule last_in_set) simp
  have tw: "takeWhile ?P ((c # cs) @ zs) = takeWhile ?P (c # cs)"
    using mem lst by (rule takeWhile_append1)
  have dw: "dropWhile ?P ((c # cs) @ zs) = dropWhile ?P (c # cs) @ zs"
    using mem lst by (rule dropWhile_append1)
  show ?case
  proof (cases "3 \<le> length (takeWhile ?P (c # cs))")
    case True
    have "dropWhile ?P (c # cs) = [] \<or> last (dropWhile ?P (c # cs)) \<noteq> newline"
      using last_dropWhile_newline[of "c # cs"] lst by simp
    from "2.IH"(1)[OF True this] True tw dw show ?thesis
      by (simp del: takeWhile.simps dropWhile.simps)
  next
    case False
    have "cs = [] \<or> last cs \<noteq> newline" using lst by (auto split: if_splits)
    from "2.IH"(2)[OF False this] False tw show ?thesis
      by (simp del: takeWhile.simps dropWhile.simps)
  qed
qed

lemma takeWhile_newlines:
  "ys = [] \<or> hd ys \<noteq> newline \<Longrightarrow>
   takeWhile (\<lambda>x. x = newline) (replicate m newline @ ys) = replicate m newline"
  by (induction m) (auto simp: takeWhile_eq_Nil_iff)

lemma dropWhile_newlines:
  "ys = [] \<or> hd ys \<noteq> newline \<Longrightarrow>
   dropWhile (\<lambda>x. x = newline) (replicate m newline @ ys) = ys"
  by (induction m) (auto simp: dropWhile_eq_self_iff)

lemma remove_extra_line_jumps_newlines:
  "ys = [] \<or> hd ys \<noteq> newline \<Longrightarrow>
   remove_extra_line_jumps (replicate n newline @ ys) =
     (if 3 \<le> n then [newline, newline] else replicate n newline) @ remove_extra_line_jumps ys"
proof (induction n)
  case 0
  then show ?case by simp
next
  case (Suc n)
  let ?P = "\<lambda>x. x = newline"
  have tw: "takeWhile ?P (replicate (Suc n) newline @ ys) = replicate (Suc n) newline"
    using Suc.prems by (simp only: takeWhile_newlines)
  have dw: "dropWhile ?P (replicate (Suc n) newline @ ys) = ys"
    using Suc.prems by (simp only: dropWhile_newlines)
  have unf: "remove_extra_line_jumps (replicate (Suc n) newline @ ys) =
     (if 3 \<le> Suc n then [newline, newline] @ remove_extra_line_jumps ys
      else newline # remove_extra_line_jumps (replicate n newline @ ys))"
    using tw dw by (simp del: takeWhile.simps dropWhile.simps)
  show ?case
  proof (cases "3 \<le> Suc n")
    case True
    then show ?thesis using unf by simp
  next
    case False
    then have "\<not> 3 \<le> n" by simp
    with False unf Suc.IH[OF Suc.prems] show ?thesis by simp
  qed
qed

lemma remove_extra_line_jumps_plain:
  "newline \<notin> set s \<Longrightarrow> remove_extra_line_jumps s = s"
  by (induction s) auto

text \<open>
  Claim C2, as amended. The pattern counts newline characters, not blank lines: a maximal
  run of \<open>n\<close> newline characters (bounded on the left by the start of the text or a
  character that is not a newline, and likewise on the right) becomes exactly two newline
  characters when \<open>3 \<le> n\<close> and is copied unchanged when \<open>n < 3\<close>; the text on either side
  is processed on its own. After a line, \<open>k\<close> blank lines are \<open>k + 1\<close> newline characters,
  so five blank lines become one, and so do two.
\<close>

theorem remove_extra_line_jumps_run:
  assumes "xs = [] \<or> last xs \<noteq> newline" and "ys = [] \<or> hd ys \<noteq> newline"
  shows "remove_extra_line_jumps (xs @ replicate n newline @ ys) =
     remove_extra_line_jumps xs @ (if 3 \<le> n then [newline, newline] else replicate n newline)
       @ remove_extra_line_jumps ys"
  using remove_extra_line_jumps_append[OF assms(1)] remove_extra_line_jumps_newlines[OF assms(2)]
  by simp

text \<open>
  Two lines separated by five blank lines (six newline characters) come out separated by
  one blank line.
\<close>

theorem remove_extra_line_jumps_run_witness:
  "remove_extra_line_jumps (''a'' @ replicate 6 newline @ ''b'') = ''a'' @ [newline, newline] @ ''b''"
  using remove_extra_line_jumps_run[of "''a''" "''b''" 6] by simp

text \<open>
  Claim C2 as stated fails: two lines separated by exactly two blank lines (three newline
  characters) are not left unchanged; one of the blank lines is removed.
\<close>

theorem remove_extra_line_jumps_two_blank_lines_changed:
  "remove_extra_line_jumps (''a'' @ [newline, newline, newline] @ ''b'') = ''a'' @ [newline, newline] @ ''b'' \<and>
   remove_extra_line_jumps (''a'' @ [newline, newline, newline] @ ''b'') \<noteq> ''a'' @ [newline, newline, newline] @ ''b''"
  by simp

subsection \<open>remove_function_body\<close>

lemma visit_new_body: "map visit (new_body body) = new_body body"
  by (cases body rule: new_body.cases) simp_all

lemma all_functions_new_body: "concat (map all_functions (new_body body)) = []"
  by (cases body rule: new_body.cases) simp_all

lemma reduced_FunctionDef:
  "reduced (FunctionDef n sig body decorators) = FunctionDef n sig (new_body body) decorators"
  by (cases body rule: new_body.cases) simp_all

lemma reduced_AsyncFunctionDef:
  "reduced (AsyncFunctionDef n sig body decorators) = AsyncFunctionDef n sig (new_body body) decorators"
  by (cases body rule: new_body.cases) simp_all

lemma all_functions_visit: "all_functions (visit s) = map reduced (outer_functions s)"
proof (induction s rule: visit.induct)
  case (1 n sig body decorators)
  show ?case by (simp add: visit_new_body all_functions_new_body reduced_FunctionDef)
next
  case (2 n sig body decorators)
  show ?case by (simp add: visit_new_body all_functions_new_body reduced_AsyncFunctionDef)
next
  case (3 n bases body decorators)
  then have eq: "map (\<lambda>x. all_functions (visit x)) body = map (\<lambda>x. map reduced (outer_functions x)) body"
    by simp
  show ?case by (simp add: map_concat o_def eq)
next
  case (7 kind es blocks)
  have "concat (map (\<lambda>x. all_functions (visit x)) b) = map reduced (concat (map outer_functions b))"
    if "b \<in> set blocks" for b
  proof -
    have eq: "map (\<lambda>x. all_functions (visit x)) b = map (\<lambda>x. map reduced (outer_functions x)) b"
      using 7 that by simp
    show ?thesis by (simp add: map_concat o_def eq)
  qed
  then have eq: "map (\<lambda>b. concat (map (\<lambda>x. all_functions (visit x)) b)) blocks =
      map (\<lambda>b. map reduced (concat (map outer_functions b))) blocks"
    by simp
  show ?case by (simp add: map_concat o_def eq)
qed simp_all

lemma all_functions_visit_module:
  "concat (map all_functions (module_body (visit_module tree))) =
     map reduced (concat (map outer_functions (module_body tree)))"
proof (cases tree)
  case (Module body)
  have eq: "map (\<lambda>x. all_functions (visit x)) body = map (\<lambda>x. map reduced (outer_functions x)) body"
    by (simp add: all_functions_visit)
  show ?thesis using Module by (simp add: map_concat o_def eq)
qed

lemma well_formed_new_body: "new_body body \<noteq> [] \<and> list_all (well_formed shape_ok) (new_body body)"
  by (cases body rule: new_body.cases) simp_all

lemma well_formed_visit: "well_formed shape_ok s \<Longrightarrow> well_formed shape_ok (visit s)"
proof (induction s rule: visit.induct)
  case (1 n sig body decorators)
  show ?case using well_formed_new_body[of body shape_ok] by (simp add: visit_new_body)
next
  case (2 n sig body decorators)
  show ?case using well_formed_new_body[of body shape_ok] by (simp add: visit_new_body)
next
  case (3 n bases body decorators)
  then show ?case by (auto simp: list_all_iff)
next
  case (7 kind es blocks)
  have "map (\<lambda>b. b = []) (map (map visit) blocks) = map (\<lambda>b. b = []) blocks"
    by simp
  with 7 show ?case by (auto simp: list_all_iff o_def)
qed simp_all

lemma well_formed_visit_module:
  "well_formed_module shape_ok tree \<Longrightarrow> well_formed_module shape_ok (visit_module tree)"
  by (cases tree) (auto simp: list_all_iff well_formed_visit)

lemmas sample_src_defs = src_deep_def src_minus_def src_return_def src_docstring_def src_nested_def
  src_hex_def src_fstring_def out_fstring_def

lemma sample_parse_table:
  "sample_parse src_deep =
     Inl (Other_exception ''RecursionError: maximum recursion depth exceeded during ast construction'')"
  "sample_parse src_minus = Inr (Module [Simple src_minus])"
  "sample_parse ''def f(:'' = Inl (SyntaxError ''invalid syntax (<unknown>, line 1)'')"
  "sample_parse src_return = Inr (Module [FunctionDef ''f'' ''()'' [Simple ''return 1''] []])"
  "sample_parse src_docstring =
     Inr (Module [FunctionDef ''f'' ''()'' [Expr (Str ''doc''), Simple ''return 1''] []])"
  "sample_parse src_nested = Inr (Module [FunctionDef ''g'' ''()''
     [FunctionDef ''h'' ''()'' [Simple ''return 1''] [], Simple ''return h''] []])"
  "sample_parse src_hex = Inr (Module [Simple src_hex])"
  "sample_parse src_fstring = Inr (Module [Simple src_fstring])"
  "sample_parse out_fstring =
     Inl (SyntaxError ''f-string expression part cannot include a backslash (<unknown>, line 1)'')"
proof -
  have ne: "src_minus \<noteq> src_deep" "''def f(:'' \<noteq> src_deep" "''def f(:'' \<noteq> src_minus"
    "src_return \<noteq> src_deep" "src_return \<noteq> src_minus" "src_return \<noteq> ''def f(:''"
    "src_docstring \<noteq> src_deep" "src_docstring \<noteq> src_minus" "src_docstring \<noteq> ''def f(:''"
    "src_docstring \<noteq> src_return"
    "src_nested \<noteq> src_deep" "src_nested \<noteq> src_minus" "src_nested \<noteq> ''def f(:''"
    "src_nested \<noteq> src_return" "src_nested \<noteq> src_docstring"
    "src_hex \<noteq> src_deep" "src_hex \<noteq> src_minus" "src_hex \<noteq> ''def f(:''"
    "src_hex \<noteq> src_return" "src_hex \<noteq> src_docstring" "src_hex \<noteq> src_nested"
    "src_fstring \<noteq> src_deep" "src_fstring \<noteq> src_minus" "src_fstring \<noteq> ''def f(:''"
    "src_fstring \<noteq> src_return" "src_fstring \<noteq> src_docstring" "src_fstring \<noteq> src_nested"
    "src_fstring \<noteq> src_hex"
    "out_fstring \<noteq> src_deep" "out_fstring \<noteq> src_minus" "out_fstring \<noteq> ''def f(:''"
    "out_fstring \<noteq> src_return" "out_fstring \<noteq> src_docstring" "out_fstring \<noteq> src_nested"
    "out_fstring \<noteq> src_hex" "out_fstring \<noteq> src_fstring"
    by (simp_all add: sample_src_defs)
  show "sample_parse src_deep =
     Inl (Other_exception ''RecursionError: maximum recursion depth exceeded during ast construction'')"
    "sample_parse src_minus = Inr (Module [Simple src_minus])"
    "sample_parse ''def f(:'' = Inl (SyntaxError ''invalid syntax (<unknown>, line 1)'')"
    "sample_parse src_return = Inr (Module [FunctionDef ''f'' ''()'' [Simple ''return 1''] []])"
    "sample_parse src_docstring =
       Inr (Module [FunctionDef ''f'' ''()'' [Expr (Str ''doc''), Simple ''return 1''] []])"
    "sample_parse src_nested = Inr (Module [FunctionDef ''g'' ''()''
       [FunctionDef ''h'' ''()'' [Simple ''return 1''] [], Simple ''return h''] []])"
    "sample_parse src_hex = Inr (Module [Simple src_hex])"
    "sample_parse src_fstring = Inr (Module [Simple src_fstring])"
    "sample_parse out_fstring =
       Inl (SyntaxError ''f-string expression part cannot include a backslash (<unknown>, line 1)'')"
    by (simp_all only: sample_parse_def ne if_True if_False refl)
qed

lemma sample_unparse_table:
  "sample_unparse (Module [FunctionDef ''f'' ''()'' [Pass] []]) = Inr out_pass_f"
  "sample_unparse (Module [FunctionDef ''f'' ''()'' [Expr (Str ''doc''), Pass] []]) = Inr out_docstring"
  "sample_unparse (Module [FunctionDef ''g'' ''()'' [Pass] []]) = Inr out_pass_g"
  "sample_unparse (Module [Simple src_hex]) =
     Inl (Other_exception ''ValueError: Exceeds the limit (4300 digits) for integer string conversion; use sys.set_int_max_str_digits() to increase the limit'')"
  "sample_unparse (Module [Simple src_fstring]) = Inr out_fstring"
proof -
  have ne: "src_fstring \<noteq> src_hex" by (simp add: sample_src_defs)
  show "sample_unparse (Module [FunctionDef ''f'' ''()'' [Pass] []]) = Inr out_pass_f"
    "sample_unparse (Module [FunctionDef ''f'' ''()'' [Expr (Str ''doc''), Pass] []]) = Inr out_docstring"
    "sample_unparse (Module [FunctionDef ''g'' ''()'' [Pass] []]) = Inr out_pass_g"
    "sample_unparse (Module [Simple src_hex]) =
       Inl (Other_exception ''ValueError: Exceeds the limit (4300 digits) for integer string conversion; use sys.set_int_max_str_digits() to increase the limit'')"
    "sample_unparse (Module [Simple src_fstring]) = Inr out_fstring"
    using ne by (simp_all add: sample_unparse_def)
qed

lemma sample_within_recursion_limit_table:
  "sample_within_recursion_limit (Module [FunctionDef n sig body decorators])"
  "sample_within_recursion_limit (Module [Simple src_hex])"
  "sample_within_recursion_limit (Module [Simple src_fstring])"
  "\<not> sample_within_recursion_limit (Module [Simple src_minus])"
proof -
  have ne: "src_hex \<noteq> src_minus" "src_fstring \<noteq> src_minus" by (simp_all add: sample_src_defs)
  show "sample_within_recursion_limit (Module [FunctionDef n sig body decorators])"
    "sample_within_recursion_limit (Module [Simple src_hex])"
    "sample_within_recursion_limit (Module [Simple src_fstring])"
    "\<not> sample_within_recursion_limit (Module [Simple src_minus])"
    using ne by (simp_all add: sample_within_recursion_limit_def)
qed

lemma remove_function_body_parsed:
  "parse code = Inr tree \<Longrightarrow>
   remove_function_body parse within_recursion_limit unparse code =
     (if within_recursion_limit tree then ([], unparse (visit_module tree))
      else ([], Inl (Other_exception ''RecursionError: maximum recursion depth exceeded'')))"
  by (simp add: remove_function_body_def)

text \<open>
  Claim C4, as amended. When the input parses and the visitor stays within the recursion
  limit, the function returns (or raises) what \<^verbatim>\<open>ast.unparse\<close> gives for the
  transformed tree, and the function definitions of that tree, nested ones included, are
  exactly the reduced forms of the function definitions of the input that lie in no other
  function definition, in the same order; this covers methods and \<^verbatim>\<open>async\<close>
  definitions. A reduced body is the docstring statement followed by one \<^verbatim>\<open>pass\<close> when
  the body began with a bare string literal, and one \<^verbatim>\<open>pass\<close> otherwise. A definition
  nested in a function body is not reduced: it goes away with that body.
\<close>

theorem remove_function_body_reduces:
  assumes "parse code = Inr tree" and "within_recursion_limit tree"
  shows "remove_function_body parse within_recursion_limit unparse code =
      ([], unparse (visit_module tree)) \<and>
    concat (map all_functions (module_body (visit_module tree))) =
      map reduced (concat (map outer_functions (module_body tree)))"
  using assms by (simp add: remove_function_body_parsed all_functions_visit_module)

text \<open>
  The function with a docstring keeps it, in the quotes \<^verbatim>\<open>ast.unparse\<close> writes, and gets
  one \<^verbatim>\<open>pass\<close>.
\<close>

theorem remove_function_body_reduces_witness:
  "remove_function_body sample_parse sample_within_recursion_limit sample_unparse src_docstring =
     ([], Inr out_docstring) \<and>
   concat (map all_functions (module_body (visit_module
     (Module [FunctionDef ''f'' ''()'' [Expr (Str ''doc''), Simple ''return 1''] []])))) =
   [FunctionDef ''f'' ''()'' [Expr (Str ''doc''), Pass] []]"
  using remove_function_body_reduces[where parse = sample_parse
      and within_recursion_limit = sample_within_recursion_limit and unparse = sample_unparse
      and code = src_docstring
      and tree = "Module [FunctionDef ''f'' ''()'' [Expr (Str ''doc''), Simple ''return 1''] []]",
      OF sample_parse_table(5) sample_within_recursion_limit_table(1)]
  by (simp add: sample_unparse_table)

text \<open>
  Claim C4 as stated fails for a nested definition. The function \<^verbatim>\<open>h\<close> defined in the
  body of \<^verbatim>\<open>g\<close> has no docstring, so its body should become one \<^verbatim>\<open>pass\<close>; instead
  \<^verbatim>\<open>h\<close> is gone from the result, which holds \<^verbatim>\<open>g\<close> alone.
\<close>

theorem remove_function_body_drops_nested:
  "sample_parse src_nested = Inr (Module [FunctionDef ''g'' ''()''
     [FunctionDef ''h'' ''()'' [Simple ''return 1''] [], Simple ''return h''] []]) \<and>
   remove_function_body sample_parse sample_within_recursion_limit sample_unparse src_nested =
     ([], Inr out_pass_g) \<and>
   concat (map all_functions (module_body (visit_module (Module [FunctionDef ''g'' ''()''
     [FunctionDef ''h'' ''()'' [Simple ''return 1''] [], Simple ''return h''] []])))) =
   [FunctionDef ''g'' ''()'' [Pass] []]"
  by (simp add: remove_function_body_parsed sample_parse_table sample_within_recursion_limit_table
      sample_unparse_table)

text \<open>
  Claim C5, as amended. When the input parses to a well-formed tree, the transformed tree is
  well-formed: every function and class body is non-empty and every other block is empty
  only where it was empty in the input. If the visitor stays within the recursion limit the
  function prints nothing and returns the text \<^verbatim>\<open>ast.unparse\<close> gives for that tree, or
  raises what \<^verbatim>\<open>ast.unparse\<close> raises; otherwise it raises \<^verbatim>\<open>RecursionError\<close>.
  Nothing is claimed about parsing the returned text again.
\<close>

theorem remove_function_body_output_well_formed:
  assumes "parse code = Inr tree" and "well_formed_module shape_ok tree"
  shows "well_formed_module shape_ok (visit_module tree) \<and>
    (within_recursion_limit tree \<longrightarrow>
       remove_function_body parse within_recursion_limit unparse code =
         ([], unparse (visit_module tree))) \<and>
    (\<not> within_recursion_limit tree \<longrightarrow>
       remove_function_body parse within_recursion_limit unparse code =
         ([], Inl (Other_exception ''RecursionError: maximum recursion depth exceeded'')))"
  using assms by (simp add: remove_function_body_parsed well_formed_visit_module)

text \<open>The function that returns 1 is reduced to a function whose body is \<^verbatim>\<open>pass\<close>.\<close>

theorem remove_function_body_output_well_formed_witness:
  "well_formed_module (\<lambda>kind empty. True)
     (visit_module (Module [FunctionDef ''f'' ''()'' [Simple ''return 1''] []])) \<and>
   remove_function_body sample_parse sample_within_recursion_limit sample_unparse src_return =
     ([], Inr out_pass_f)"
proof -
  have w: "well_formed_module (\<lambda>kind empty. True)
      (Module [FunctionDef ''f'' ''()'' [Simple ''return 1''] []])"
    by simp
  from remove_function_body_output_well_formed[where parse = sample_parse
      and within_recursion_limit = sample_within_recursion_limit and unparse = sample_unparse
      and code = src_return and shape_ok = "\<lambda>kind empty. True"
      and tree = "Module [FunctionDef ''f'' ''()'' [Simple ''return 1''] []]",
      OF sample_parse_table(4) w]
  show ?thesis
    by (simp add: sample_within_recursion_limit_table sample_unparse_table)
qed

text \<open>
  Claim C5 as stated fails. The assignment of the f-string parses; the text returned for it
  does not, because \<^verbatim>\<open>ast.unparse\<close> writes the line break of the inner string as a
  backslash escape, which an f-string expression may not hold. For the long hexadecimal
  literal \<^verbatim>\<open>ast.unparse\<close> raises, and for the 900 minus signs the visitor does, so
  nothing is returned at all.
\<close>

theorem remove_function_body_output_does_not_parse:
  "sample_parse src_fstring = Inr (Module [Simple src_fstring]) \<and>
   remove_function_body sample_parse sample_within_recursion_limit sample_unparse src_fstring =
     ([], Inr out_fstring) \<and>
   sample_parse out_fstring =
     Inl (SyntaxError ''f-string expression part cannot include a backslash (<unknown>, line 1)'') \<and>
   remove_function_body sample_parse sample_within_recursion_limit sample_unparse src_hex =
     ([], Inl (Other_exception ''ValueError: Exceeds the limit (4300 digits) for integer string conversion; use sys.set_int_max_str_digits() to increase the limit'')) \<and>
   remove_function_body sample_parse sample_within_recursion_limit sample_unparse src_minus =
     ([], Inl (Other_exception ''RecursionError: maximum recursion depth exceeded''))"
  by (simp add: remove_function_body_parsed sample_parse_table sample_within_recursion_limit_table
      sample_unparse_table)

text \<open>
  Claim C6, as amended. When \<^verbatim>\<open>ast.parse\<close> raises \<^verbatim>\<open>SyntaxError\<close>, the function prints
  \<^verbatim>\<open>Error: \<close> followed by the text of the error and returns the text it was given,
  unchanged. When \<^verbatim>\<open>ast.parse\<close> raises any other exception, the function prints nothing
  and the exception leaves it. In neither case is \<^verbatim>\<open>ast.unparse\<close> consulted.
\<close>

theorem remove_function_body_parse_failure:
  "(parse code = Inl (SyntaxError e) \<longrightarrow>
      remove_function_body parse within_recursion_limit unparse code = ([''Error: '' @ e], Inr code)) \<and>
   (parse code = Inl (Other_exception e) \<longrightarrow>
      remove_function_body parse within_recursion_limit unparse code = ([], Inl (Other_exception e)))"
  by (simp add: remove_function_body_def)

text \<open>An input the parser rejects with \<^verbatim>\<open>SyntaxError\<close>.\<close>

theorem remove_function_body_parse_failure_witness:
  "sample_parse ''def f(:'' = Inl (SyntaxError ''invalid syntax (<unknown>, line 1)'') \<and>
   remove_function_body sample_parse sample_within_recursion_limit sample_unparse ''def f(:'' =
     ([''Error: invalid syntax (<unknown>, line 1)''], Inr ''def f(:'')"
  using remove_function_body_parse_failure[where parse = sample_parse
      and within_recursion_limit = sample_within_recursion_limit and unparse = sample_unparse
      and code = "''def f(:''" and e = "''invalid syntax (<unknown>, line 1)''"]
  by (simp add: sample_parse_table)

text \<open>
  Claim C6 as stated fails. The assignment with 5000 minus signs does not parse:
  \<^verbatim>\<open>ast.parse\<close> raises \<^verbatim>\<open>RecursionError\<close>, which the function does not catch, so it
  returns nothing instead of the input.
\<close>

theorem remove_function_body_recursion_error:
  "sample_parse src_deep =
     Inl (Other_exception ''RecursionError: maximum recursion depth exceeded during ast construction'') \<and>
   remove_function_body sample_parse sample_within_recursion_limit sample_unparse src_deep =
     ([], Inl (Other_exception ''RecursionError: maximum recursion depth exceeded during ast construction''))"
  by (simp add: remove_function_body_def sample_parse_table)

subsection \<open>get_arborescence\<close>





subsection \<open>is_parent_ignored\<close>

lemma is_parent_ignored_loop_relative: "is_parent_ignored_loop (Path False ps) F = Some (\<exists>a\<in>set ps. a \<in> F)"
proof (induction ps rule: rev_induct)
  case Nil
  then show ?case by (simp add: is_parent_ignored_loop.simps)
next
  case (snoc x xs)
  then show ?case by (subst is_parent_ignored_loop.simps) auto
qed

lemma is_parent_ignored_loop_absolute:
  assumes "is_parent_ignored_loop p F = Some b"
  shows "is_absolute p \<longrightarrow> (\<exists>a\<in>set (parts p). a \<in> F) \<or> [] \<in> F"
proof (rule is_parent_ignored_loop.raw_induct
    [where P = "\<lambda>p F b. is_absolute p \<longrightarrow> (\<exists>a\<in>set (parts p). a \<in> F) \<or> [] \<in> F", OF _ assms])
  fix loop :: "path \<Rightarrow> string set \<Rightarrow> bool option" and current F b
  assume IH: "\<And>q G y. loop q G = Some y \<Longrightarrow>
      is_absolute q \<longrightarrow> (\<exists>a\<in>set (parts q). a \<in> G) \<or> [] \<in> G"
    and step: "(if current \<noteq> Path_dot
         then if name current \<in> F then Some True else loop (parent current) F
         else Some False) = Some b"
  show "is_absolute current \<longrightarrow> (\<exists>a\<in>set (parts current). a \<in> F) \<or> [] \<in> F"
  proof
    assume ab: "is_absolute current"
    obtain ps where cur: "current = Path True ps" using ab by (cases current) auto
    show "(\<exists>a\<in>set (parts current). a \<in> F) \<or> [] \<in> F"
    proof (cases "name current \<in> F")
      case True
      then show ?thesis using cur by (cases "ps = []") auto
    next
      case False
      with step cur have "loop (parent current) F = Some b" by simp
      from IH[OF this] cur have "(\<exists>a\<in>set (butlast ps). a \<in> F) \<or> [] \<in> F" by simp
      then show ?thesis using cur by (auto dest: in_set_butlastD)
    qed
  qed
qed

text \<open>
  Claim C10. For a relative path the loop ends, and the result is \<open>True\<close> exactly when one
  of the path's directory components (every component but the last, the names of its
  ancestors below \<^verbatim>\<open>Path('.')\<close>) is in the set of ignored folders. The precondition
  is needed: from an absolute path the walk reaches the root, whose parent is the root
  itself and whose name is empty, and never \<^verbatim>\<open>Path('.')\<close>; unless a component or the
  empty name is ignored, the loop does not return.
\<close>

theorem is_parent_ignored_relative_only:
  "(\<not> is_absolute p \<longrightarrow>
      is_parent_ignored p F = Some (\<exists>a\<in>set (butlast (parts p)). a \<in> F)) \<and>
   (is_absolute p \<and> (\<forall>a\<in>set (butlast (parts p)). a \<notin> F) \<and> [] \<notin> F \<longrightarrow>
      is_parent_ignored p F = None)"
proof (cases p)
  case (Path ab ps)
  show ?thesis
  proof (cases ab)
    case False
    with Path show ?thesis by (simp add: is_parent_ignored_def is_parent_ignored_loop_relative)
  next
    case True
    have "is_parent_ignored_loop (Path True (butlast ps)) F = None"
      if "\<forall>a\<in>set (butlast ps). a \<notin> F" "[] \<notin> F"
    proof (cases "is_parent_ignored_loop (Path True (butlast ps)) F")
      case None
      then show ?thesis .
    next
      case (Some b)
      from is_parent_ignored_loop_absolute[OF Some] that show ?thesis by simp
    qed
    with Path True show ?thesis by (simp add: is_parent_ignored_def)
  qed
qed

text \<open>
  A relative path below an ignored folder, a relative path whose last component alone is
  ignored, and an absolute path.
\<close>

theorem is_parent_ignored_relative_only_witness:
  "is_parent_ignored (Path False [''venv'', ''lib'', ''a.py'']) {''venv''} = Some True \<and>
   is_parent_ignored (Path False [''src'', ''venv'']) {''venv''} = Some False \<and>
   is_parent_ignored (Path True [''src'', ''a.py'']) {''venv''} = None"
  using is_parent_ignored_relative_only[of "Path False [''venv'', ''lib'', ''a.py'']" "{''venv''}"]
    is_parent_ignored_relative_only[of "Path False [''src'', ''venv'']" "{''venv''}"]
    is_parent_ignored_relative_only[of "Path True [''src'', ''a.py'']" "{''venv''}"]
  by simp

subsection \<open>save_settings and load_settings\<close>

declare py_split.simps [simp del] str_nat.simps [simp del]

lemma universal_newlines_id: "carriage_return \<notin> set s \<Longrightarrow> universal_newlines s = s"
  by (induction s rule: universal_newlines.induct) auto

lemma readline_line:
  assumes "newline \<notin> set a"
  shows "readline (a @ newline # rest) = (a @ [newline], rest)"
proof -
  have all: "\<forall>x\<in>set a. x \<noteq> newline" using assms by auto
  have d: "dropWhile (\<lambda>c. c \<noteq> newline) (a @ newline # rest) = newline # rest"
    using all by (simp add: dropWhile_append2)
  have t: "takeWhile (\<lambda>c. c \<noteq> newline) (a @ newline # rest) = a"
    using all by (simp add: takeWhile_append2)
  show ?thesis unfolding readline_def d t by simp
qed

lemma py_isspace_newline [simp]: "py_isspace newline"
  by (simp add: py_isspace_def)

lemma py_isspace_space [simp]: "py_isspace space"
  by (simp add: py_isspace_def)

lemma py_isspace_carriage_return [simp]: "py_isspace carriage_return"
  by (simp add: py_isspace_def)

lemma dropWhile_hd: "xs \<noteq> [] \<Longrightarrow> \<not> P (hd xs) \<Longrightarrow> dropWhile P xs = xs"
  by (cases xs) auto

lemma py_strip_edges:
  assumes "a = [] \<or> (\<not> py_isspace (hd a) \<and> \<not> py_isspace (last a))"
  shows "py_strip a = a"
proof (cases a)
  case Nil
  then show ?thesis by (simp add: py_strip_def)
next
  case (Cons c cs)
  with assms have h: "\<not> py_isspace c" and l: "\<not> py_isspace (last a)" by auto
  have 1: "dropWhile py_isspace a = a" using h Cons by simp
  have "rev a \<noteq> []" using Cons by simp
  moreover have "hd (rev a) = last a" using Cons by (simp add: hd_rev)
  ultimately have 2: "dropWhile py_isspace (rev a) = rev a"
    using l by (simp add: dropWhile_hd)
  show ?thesis by (simp add: py_strip_def 1 2)
qed

lemma py_strip_line:
  assumes "a = [] \<or> (\<not> py_isspace (hd a) \<and> \<not> py_isspace (last a))"
  shows "py_strip (a @ [newline]) = a"
proof (cases a)
  case Nil
  then show ?thesis by (simp add: py_strip_def)
next
  case (Cons c cs)
  with assms have h: "\<not> py_isspace c" and l: "\<not> py_isspace (last a)" by auto
  have 1: "dropWhile py_isspace (a @ [newline]) = a @ [newline]" using h Cons by simp
  have "rev a \<noteq> []" using Cons by simp
  moreover have "hd (rev a) = last a" using Cons by (simp add: hd_rev)
  ultimately have 2: "dropWhile py_isspace (rev a) = rev a"
    using l by (simp add: dropWhile_hd)
  show ?thesis by (simp add: py_strip_def 1 2)
qed

lemma startswith_simps [simp]:
  "startswith s [] = True"
  "startswith [] (x # p) = False"
  "startswith (y # ys) (x # p) = (y = x \<and> startswith ys p)"
  by (auto simp: startswith_def)

lemma py_replace_newline: "py_replace [newline] ''<newline>'' d = encode d"
  by (induction d) (auto simp: encode_def)

lemma startswith_encode:
  "startswith (encode cs) p \<Longrightarrow> \<forall>x\<in>set p. x \<noteq> CHR ''<'' \<and> x \<noteq> newline \<Longrightarrow> startswith cs p"
proof (induction p arbitrary: cs)
  case Nil
  then show ?case by simp
next
  case (Cons x p)
  show ?case
  proof (cases cs)
    case Nil
    with Cons.prems show ?thesis by (simp add: encode_def)
  next
    case (Cons y ys)
    have enc: "encode (y # ys) = (if y = newline then ''<newline>'' else [y]) @ encode ys"
      by (simp add: encode_def)
    show ?thesis
    proof (cases "y = newline")
      case True
      with Cons.prems(1) Cons.prems(2) enc Cons show ?thesis by auto
    next
      case False
      with Cons.prems(1) enc Cons have "y = x" "startswith (encode ys) p" by auto
      with Cons.IH[of ys] Cons.prems(2) Cons show ?thesis by auto
    qed
  qed
qed

lemma py_replace_encode:
  "\<not> contains d ''<newline>'' \<Longrightarrow> py_replace ''<newline>'' [newline] (encode d) = d"
proof (induction d)
  case Nil
  then show ?case by (simp add: encode_def)
next
  case (Cons c cs)
  have nc: "\<not> contains cs ''<newline>''" and ns: "\<not> startswith (c # cs) ''<newline>''"
    using Cons.prems by auto
  have enc: "encode (c # cs) = (if c = newline then ''<newline>'' else [c]) @ encode cs"
    by (simp add: encode_def)
  show ?case
  proof (cases "c = newline")
    case True
    then show ?thesis using Cons.IH[OF nc] enc by simp
  next
    case False
    have "\<not> startswith (c # encode cs) ''<newline>''"
    proof
      assume a: "startswith (c # encode cs) ''<newline>''"
      then have "c = CHR ''<''" and "startswith (encode cs) ''newline>''" by auto
      moreover from this(2) have "startswith cs ''newline>''"
        by (rule startswith_encode) simp
      ultimately show False using ns by simp
    qed
    then show ?thesis using False Cons.IH[OF nc] enc by simp
  qed
qed

lemma set_encode: "set (encode d) \<subseteq> (set d - {newline}) \<union> set ''<newline>''"
  by (induction d) (auto simp: encode_def)

lemma encode_eq_Nil: "(encode d = []) = (d = [])"
  by (cases d) (auto simp: encode_def)

lemma hd_encode: "d \<noteq> [] \<Longrightarrow> hd (encode d) = (if hd d = newline then CHR ''<'' else hd d)"
  by (cases d) (auto simp: encode_def)

lemma last_encode: "d \<noteq> [] \<Longrightarrow> last (encode d) = (if last d = newline then CHR ''>'' else last d)"
proof (induction d rule: rev_induct)
  case Nil
  then show ?case by simp
next
  case (snoc x xs)
  have "encode (xs @ [x]) = encode xs @ (if x = newline then ''<newline>'' else [x])"
    by (simp add: encode_def)
  then show ?case by simp
qed

lemma of_char_digit_char: "d < 10 \<Longrightarrow> (of_char (digit_char d) :: nat) = 48 + d"
  by (simp add: digit_char_def)

lemma is_digit_digit_char: "d < 10 \<Longrightarrow> is_digit (digit_char d)"
  by (simp add: is_digit_def of_char_digit_char)

lemma digit_not_space: "is_digit c \<Longrightarrow> \<not> py_isspace c"
  by (auto simp: is_digit_def py_isspace_def)

lemma digit_not_sign: "is_digit c \<Longrightarrow> c \<noteq> CHR ''-'' \<and> c \<noteq> CHR ''+'' \<and> c \<noteq> newline \<and> c \<noteq> carriage_return"
  by (auto simp: is_digit_def)

lemma str_nat_digits: "list_all is_digit (str_nat n)"
proof (induction n rule: str_nat.induct)
  case (1 n)
  show ?case
  proof (cases "n < 10")
    case True
    then show ?thesis by (subst str_nat.simps) (simp add: is_digit_digit_char)
  next
    case False
    with 1 show ?thesis by (subst str_nat.simps) (simp add: is_digit_digit_char)
  qed
qed

lemma str_nat_not_Nil: "str_nat n \<noteq> []"
  by (subst str_nat.simps) simp

lemma parse_digits_snoc:
  "list_all is_digit xs \<Longrightarrow> is_digit d \<Longrightarrow>
   parse_digits (xs @ [d]) acc = map_option (\<lambda>v. 10 * v + (of_char d - 48)) (parse_digits xs acc)"
  by (induction xs arbitrary: acc) auto

lemma parse_digits_str_nat: "parse_digits (str_nat n) 0 = Some n"
proof (induction n rule: str_nat.induct)
  case (1 n)
  show ?case
  proof (cases "n < 10")
    case True
    then show ?thesis
      by (subst str_nat.simps) (simp add: is_digit_digit_char of_char_digit_char)
  next
    case False
    have "parse_digits (str_nat (n div 10) @ [digit_char (n mod 10)]) 0 =
        map_option (\<lambda>v. 10 * v + (of_char (digit_char (n mod 10)) - 48)) (parse_digits (str_nat (n div 10)) 0)"
      by (rule parse_digits_snoc) (simp_all add: str_nat_digits is_digit_digit_char)
    also have "\<dots> = Some (10 * (n div 10) + n mod 10)"
      using 1[OF False] by (simp add: of_char_digit_char)
    finally show ?thesis using False by (subst str_nat.simps) simp
  qed
qed

lemma str_nat_edges: "\<not> py_isspace (hd (str_nat n)) \<and> \<not> py_isspace (last (str_nat n))"
proof -
  have "hd (str_nat n) \<in> set (str_nat n)" "last (str_nat n) \<in> set (str_nat n)"
    using str_nat_not_Nil by simp_all
  then show ?thesis using str_nat_digits[of n] by (auto simp: list_all_iff digit_not_space)
qed

lemma py_int_str_nat:
  assumes "length (str_nat n) \<le> int_max_str_digits"
  shows "py_int (str_nat n) = Some (int n)"
proof -
  have flt: "filter is_digit (str_nat n) = str_nat n"
    using str_nat_digits[of n] by (simp add: list_all_iff)
  obtain c cs where s: "str_nat n = c # cs" using str_nat_not_Nil[of n] by (cases "str_nat n") auto
  have dc: "is_digit c" using str_nat_digits[of n] s by simp
  have strip: "py_strip (str_nat n) = str_nat n"
    using str_nat_edges by (intro py_strip_edges) simp
  have "parse_unsigned (str_nat n) = Some n"
    using dc parse_digits_str_nat[of n] s flt assms by (simp add: parse_unsigned_def)
  then have "parse_unsigned (c # cs) = Some n"
    using s by simp
  then show ?thesis using dc digit_not_sign[OF dc] s strip by (simp add: py_int_def)
qed

lemma str_nat_clean: "newline \<notin> set (str_nat n) \<and> carriage_return \<notin> set (str_nat n)"
  using str_nat_digits[of n] digit_not_sign by (auto simp: list_all_iff)

lemma py_split_word:
  assumes "w \<noteq> []" "\<forall>c\<in>set w. \<not> py_isspace c"
  shows "py_split (w @ space # rest) = w # py_split rest"
proof -
  obtain c cs where w: "w = c # cs" using assms(1) by (cases w) auto
  have 1: "dropWhile py_isspace (w @ space # rest) = w @ space # rest"
    using assms w by simp
  have 2: "takeWhile (\<lambda>c. \<not> py_isspace c) (w @ space # rest) = w"
    using assms(2) by (simp add: takeWhile_append2)
  have 3: "dropWhile (\<lambda>c. \<not> py_isspace c) (w @ space # rest) = space # rest"
    using assms(2) by (simp add: dropWhile_append2)
  have 4: "py_split (space # rest) = py_split rest"
    by (subst py_split.simps, subst (2) py_split.simps) simp
  show ?thesis
    by (subst py_split.simps) (simp only: 1 2 3 4 Let_def, simp add: w)
qed

lemma py_split_last:
  assumes "w \<noteq> []" "\<forall>c\<in>set w. \<not> py_isspace c"
  shows "py_split w = [w]"
proof -
  obtain c cs where w: "w = c # cs" using assms(1) by (cases w) auto
  have 1: "dropWhile py_isspace w = w" using assms w by simp
  have 2: "takeWhile (\<lambda>c. \<not> py_isspace c) w = w" using assms(2) by simp
  have 3: "dropWhile (\<lambda>c. \<not> py_isspace c) w = []" using assms(2) by simp
  have 4: "py_split [] = []" by (subst py_split.simps) simp
  show ?thesis
    by (subst py_split.simps) (simp only: 1 2 3 4 Let_def, simp add: w)
qed

lemma str_bool_word: "str_bool b \<noteq> [] \<and> (\<forall>c\<in>set (str_bool b). \<not> py_isspace c)"
  by (auto simp: str_bool_def py_isspace_def)

lemma str_bool_True: "(str_bool b = ''True'') = b"
  by (simp add: str_bool_def)

lemma split_from_end:
  "\<not> contains x '', '' \<Longrightarrow> split_from '', '' piece x = [piece @ x]"
  by (induction x arbitrary: piece) auto

lemma split_from_sep:
  "\<not> contains x '', '' \<Longrightarrow>
   split_from '', '' piece (x @ '', '' @ rest) = (piece @ x) # split_from '', '' [] rest"
proof (induction x arbitrary: piece)
  case Nil
  then show ?case by simp
next
  case (Cons c x)
  have nc: "\<not> contains x '', ''" and ns: "\<not> startswith (c # x) '', ''"
    using Cons.prems by auto
  have "\<not> startswith (c # x @ '', '' @ rest) '', ''"
    using ns by (cases x) auto
  then show ?case using Cons.IH[OF nc, of "piece @ [c]"] by simp
qed

lemma py_split_sep_join:
  "xs \<noteq> [] \<Longrightarrow> \<forall>x\<in>set xs. \<not> contains x '', '' \<Longrightarrow>
   py_split_sep (py_join '', '' xs) '', '' = xs"
proof (induction "'', ''" xs rule: py_join.induct)
  case 1
  then show ?case by simp
next
  case (2 x)
  then show ?case by (simp add: py_split_sep_def split_from_end)
next
  case (3 x y ys)
  then have "split_from '', '' [] (py_join '', '' (y # ys)) = y # ys"
    by (simp add: py_split_sep_def)
  moreover have "\<not> contains x '', ''" using 3 by simp
  ultimately show ?case
    using split_from_sep[of x "[]" "py_join '', '' (y # ys)"]
    by (simp add: py_split_sep_def)
qed

lemma set_py_join: "set (py_join '', '' xs) \<subseteq> \<Union> (set ` set xs) \<union> {CHR '','', space}"
  by (induction "'', ''" xs rule: py_join.induct) auto

lemma py_split_file_line:
  assumes "str_of p \<noteq> []" "\<forall>c\<in>set (str_of p). \<not> py_isspace c"
  shows "py_split (file_line str_of p v c f) = [str_of p, str_bool v, str_bool c, str_bool f]"
proof -
  have "py_split (file_line str_of p v c f) =
      str_of p # py_split (str_bool v @ space # str_bool c @ space # str_bool f)"
    using py_split_word[OF assms] by (simp add: file_line_def)
  also have "\<dots> = str_of p # str_bool v # py_split (str_bool c @ space # str_bool f)"
    using str_bool_word[of v] by (simp add: py_split_word)
  also have "\<dots> = str_of p # str_bool v # str_bool c # py_split (str_bool f)"
    using str_bool_word[of c] by (simp add: py_split_word)
  also have "\<dots> = [str_of p, str_bool v, str_bool c, str_bool f]"
    using str_bool_word[of f] by (simp add: py_split_last)
  finally show ?thesis .
qed

lemma file_line_edges:
  assumes "str_of p \<noteq> []" "\<forall>c\<in>set (str_of p). \<not> py_isspace c"
  shows "\<not> py_isspace (hd (file_line str_of p v c f)) \<and> \<not> py_isspace (last (file_line str_of p v c f))"
proof -
  have "hd (file_line str_of p v c f) = hd (str_of p)"
    using assms(1) by (simp add: file_line_def)
  moreover have "hd (str_of p) \<in> set (str_of p)" using assms(1) by simp
  moreover have "last (file_line str_of p v c f) = CHR ''e''"
    by (simp add: file_line_def str_bool_def)
  ultimately show ?thesis using assms(2) by (auto simp: py_isspace_def)
qed

lemma file_line_no_newline:
  assumes "\<forall>c\<in>set (str_of p). \<not> py_isspace c"
  shows "newline \<notin> set (file_line str_of p v c f)"
  using assms by (auto simp: file_line_def str_bool_def)

lemma save_file_line_eq:
  "rc p = Some c \<Longrightarrow> rf p = Some f \<Longrightarrow>
   save_file_line str_of rc rf (p, v) = file_line str_of p v c f @ [newline]"
  by (simp add: save_file_line_def file_line_def)

lemma load_files_step:
  assumes st: "storable_path str_of path_of p" and c: "rc p = Some c" and f: "rf p = Some f"
  shows "load_files path_of (Suc n) (S, C, F, save_file_line str_of rc rf (p, v) @ rest) =
     load_files path_of n (S(p \<mapsto> v), C(p \<mapsto> c), F(p \<mapsto> f), rest)"
proof -
  let ?L = "file_line str_of p v c f"
  have ne: "str_of p \<noteq> []" and ns: "\<forall>c\<in>set (str_of p). \<not> py_isspace c"
    and po: "path_of (str_of p) = p"
    using st by (auto simp: storable_path_def list_all_iff)
  have line: "save_file_line str_of rc rf (p, v) @ rest = ?L @ newline # rest"
    using c f by (simp add: save_file_line_eq)
  have rl: "readline (?L @ newline # rest) = (?L @ [newline], rest)"
    using file_line_no_newline[where str_of = str_of and p = p, OF ns] by (rule readline_line)
  have strip: "py_strip (?L @ [newline]) = ?L"
    using file_line_edges[where str_of = str_of and p = p, OF ne ns] by (intro py_strip_line) simp
  have split: "py_split ?L = [str_of p, str_bool v, str_bool c, str_bool f]"
    by (rule py_split_file_line[where str_of = str_of and p = p, OF ne ns])
  show ?thesis
    by (simp only: line load_files.simps rl fst_conv snd_conv strip split Let_def)
       (simp add: po str_bool_True)
qed

lemma load_files_lines:
  assumes "\<forall>(p, v)\<in>set sel. storable_path str_of path_of p \<and> rc p \<noteq> None \<and> rf p \<noteq> None"
    and "distinct (map fst sel)"
  shows "load_files path_of (length sel)
       (S, C, F, concat (map (save_file_line str_of rc rf) sel) @ rest) =
     ((\<lambda>q. if q \<in> fst ` set sel then map_of sel q else S q),
      (\<lambda>q. if q \<in> fst ` set sel then rc q else C q),
      (\<lambda>q. if q \<in> fst ` set sel then rf q else F q), rest)"
  using assms
proof (induction sel arbitrary: S C F)
  case Nil
  then show ?case by simp
next
  case (Cons pv sel)
  obtain p v where pv: "pv = (p, v)" by (cases pv)
  from Cons.prems(1) pv obtain c f where st: "storable_path str_of path_of p"
    and c: "rc p = Some c" and f: "rf p = Some f" by auto
  have rest: "\<forall>(p, v)\<in>set sel. storable_path str_of path_of p \<and> rc p \<noteq> None \<and> rf p \<noteq> None"
    and dist: "distinct (map fst sel)" and fresh: "p \<notin> fst ` set sel"
    using Cons.prems pv by auto
  have "load_files path_of (length (pv # sel))
       (S, C, F, concat (map (save_file_line str_of rc rf) (pv # sel)) @ rest) =
     load_files path_of (length sel)
       (S(p \<mapsto> v), C(p \<mapsto> c), F(p \<mapsto> f), concat (map (save_file_line str_of rc rf) sel) @ rest)"
    using load_files_step[where str_of = str_of and path_of = path_of and p = p and rc = rc
        and rf = rf and c = c and f = f and n = "length sel" and S = S and C = C and F = F and v = v
        and rest = "concat (map (save_file_line str_of rc rf) sel) @ rest", OF st c f] pv
    by simp
  also have "\<dots> =
     ((\<lambda>q. if q \<in> fst ` set sel then map_of sel q else (S(p \<mapsto> v)) q),
      (\<lambda>q. if q \<in> fst ` set sel then rc q else (C(p \<mapsto> c)) q),
      (\<lambda>q. if q \<in> fst ` set sel then rf q else (F(p \<mapsto> f)) q), rest)"
    by (rule Cons.IH[OF rest dist])
  also have "\<dots> =
     ((\<lambda>q. if q \<in> fst ` set (pv # sel) then map_of (pv # sel) q else S q),
      (\<lambda>q. if q \<in> fst ` set (pv # sel) then rc q else C q),
      (\<lambda>q. if q \<in> fst ` set (pv # sel) then rf q else F q), rest)"
    using fresh c f pv by (auto simp: fun_eq_iff)
  finally show ?case .
qed

lemma storable_names_line:
  assumes "storable_names xs"
  shows "newline \<notin> set (py_join '', '' xs)" "carriage_return \<notin> set (py_join '', '' xs)"
    "py_strip (py_join '', '' xs @ [newline]) = py_join '', '' xs"
    "py_join '', '' xs \<noteq> []"
    "set (py_split_sep (py_join '', '' xs) '', '') = set xs"
proof -
  have el: "\<forall>x\<in>set xs. \<not> contains x '', '' \<and> newline \<notin> set x \<and> carriage_return \<notin> set x"
    and ne: "py_join '', '' xs \<noteq> []"
    and ed: "\<not> py_isspace (hd (py_join '', '' xs))" "\<not> py_isspace (last (py_join '', '' xs))"
    using assms by (auto simp: storable_names_def list_all_iff)
  show "newline \<notin> set (py_join '', '' xs)" "carriage_return \<notin> set (py_join '', '' xs)"
    using set_py_join[of xs] el by auto
  show "py_strip (py_join '', '' xs @ [newline]) = py_join '', '' xs"
    using ed by (intro py_strip_line) simp
  show "py_join '', '' xs \<noteq> []" by (rule ne)
  have "xs \<noteq> []" using ne by auto
  then show "set (py_split_sep (py_join '', '' xs) '', '') = set xs"
    using el by (simp add: py_split_sep_join)
qed

lemma storable_description_line:
  assumes "storable_description d"
  shows "newline \<notin> set (encode d)" "carriage_return \<notin> set (encode d)"
    "py_strip (encode d @ [newline]) = encode d"
    "py_replace ''<newline>'' [newline] (encode d) = d"
proof -
  have cr: "carriage_return \<notin> set d" and nc: "\<not> contains d ''<newline>''"
    and ed: "d = [] \<or> ((hd d = newline \<or> \<not> py_isspace (hd d)) \<and> (last d = newline \<or> \<not> py_isspace (last d)))"
    using assms by (auto simp: storable_description_def)
  show "newline \<notin> set (encode d)" "carriage_return \<notin> set (encode d)"
    using set_encode[of d] cr by auto
  have "encode d = [] \<or> (\<not> py_isspace (hd (encode d)) \<and> \<not> py_isspace (last (encode d)))"
  proof (cases "d = []")
    case True
    then show ?thesis by (simp add: encode_eq_Nil)
  next
    case False
    have "\<not> py_isspace (CHR ''<'')" "\<not> py_isspace (CHR ''>'')" by (simp_all add: py_isspace_def)
    with False ed show ?thesis by (auto simp: hd_encode last_encode)
  qed
  then show "py_strip (encode d @ [newline]) = encode d" by (rule py_strip_line)
  show "py_replace ''<newline>'' [newline] (encode d) = d" using nc by (rule py_replace_encode)
qed

lemma save_file_line_clean:
  assumes "storable_path str_of path_of p"
  shows "carriage_return \<notin> set (save_file_line str_of rc rf (p, v))"
proof -
  have "\<forall>c\<in>set (str_of p). \<not> py_isspace c"
    using assms by (simp add: storable_path_def list_all_iff)
  then have "carriage_return \<notin> set (str_of p)" by auto
  then show ?thesis
    by (auto simp: save_file_line_def str_bool_def split: option.splits)
qed

text \<open>
  Claim C3, as amended. Loading a file that was just saved gives back the description, the
  include flag of every file, the two strip flags of every selected file, and the two
  exclusion sets, provided that: the description is storable; the selected files are distinct
  paths, each storable and present in both flag dictionaries, and their number is written
  with no more digits than \<^verbatim>\<open>int\<close> accepts; and both exclusion sets are storable, in
  particular not empty.
\<close>

theorem settings_round_trip:
  assumes desc: "storable_description description"
    and dist: "distinct (map fst selected_files)"
    and count: "length (str_nat (length selected_files)) \<le> int_max_str_digits"
    and files: "\<forall>(p, v)\<in>set selected_files. storable_path str_of path_of p \<and>
        remove_comments p \<noteq> None \<and> remove_functions p \<noteq> None"
    and folders: "storable_names ignored_folders"
    and names: "storable_names ignored_files"
  shows "load_settings path_of (Some (save_settings str_of description selected_files
        remove_comments remove_functions ignored_folders ignored_files)) =
     Inr (Some \<lparr>s_description = description,
       s_selected_files = map_of selected_files,
       s_remove_comments = remove_comments |` (fst ` set selected_files),
       s_remove_functions = remove_functions |` (fst ` set selected_files),
       s_ignored_folders = set ignored_folders,
       s_ignored_files = set ignored_files\<rparr>)"
proof -
  let ?E = "encode description"
  let ?N = "str_nat (length selected_files)"
  let ?L = "concat (map (save_file_line str_of remove_comments remove_functions) selected_files)"
  let ?JF = "py_join '', '' ignored_folders"
  let ?JL = "py_join '', '' ignored_files"
  let ?R3 = "?JF @ newline # ?JL @ [newline]"
  let ?R2 = "?L @ ?R3"
  let ?R1 = "?N @ newline # ?R2"
  let ?content = "?E @ newline # ?R1"
  note D = storable_description_line[OF desc]
  note F = storable_names_line[OF folders]
  note G = storable_names_line[OF names]
  have content: "save_settings str_of description selected_files remove_comments remove_functions
      ignored_folders ignored_files = ?content"
    by (simp add: save_settings_def py_replace_newline)
  have "carriage_return \<notin> set ?L"
    using files save_file_line_clean[where str_of = str_of and path_of = path_of] by fastforce
  then have "carriage_return \<notin> set ?content"
    using D(2) F(2) G(2) str_nat_clean[of "length selected_files"] by simp
  then have un: "universal_newlines ?content = ?content" by (rule universal_newlines_id)
  have r0: "readline ?content = (?E @ [newline], ?R1)"
    using D(1) by (rule readline_line)
  have r1: "readline ?R1 = (?N @ [newline], ?R2)"
    using str_nat_clean[of "length selected_files"] by (intro readline_line) simp
  have sn: "py_strip (?N @ [newline]) = ?N"
    using str_nat_edges by (intro py_strip_line) simp
  have lf: "load_files path_of (length selected_files) (Map.empty, Map.empty, Map.empty, ?R2) =
      (map_of selected_files, remove_comments |` (fst ` set selected_files),
       remove_functions |` (fst ` set selected_files), ?R3)"
  proof -
    have m: "(\<lambda>q. if q \<in> fst ` set selected_files then map_of selected_files q else None) =
        map_of selected_files"
    proof
      fix q
      show "(if q \<in> fst ` set selected_files then map_of selected_files q else None) =
          map_of selected_files q"
        using map_of_eq_None_iff[of selected_files q] by (cases "q \<in> fst ` set selected_files") simp_all
    qed
    have r: "(\<lambda>q. if q \<in> fst ` set selected_files then g q else None) = g |` (fst ` set selected_files)"
      for g :: "'a \<rightharpoonup> bool"
      by (auto simp: fun_eq_iff restrict_map_def)
    show ?thesis
      using load_files_lines[where str_of = str_of and path_of = path_of and rc = remove_comments
          and rf = remove_functions and sel = selected_files and S = Map.empty and C = Map.empty
          and F = Map.empty and rest = ?R3, OF files dist]
      by (simp only: m r)
  qed
  have r3: "readline ?R3 = (?JF @ [newline], ?JL @ [newline])"
    using F(1) by (rule readline_line)
  have r4: "readline (?JL @ [newline]) = (?JL @ [newline], [])"
    using readline_line[OF G(1), of "[]"] by simp
  show ?thesis
    unfolding content load_settings_def
    by (simp only: option.case un r0 r1 fst_conv snd_conv Let_def D(3) D(4) sn py_int_str_nat[OF count]
        nat_int lf prod.case r3 r4 F(3) G(3) F(4) G(4) F(5) G(5) if_True not_False_eq_True simp_thms)
qed

text \<open>
  A description of two lines, one file with its three flags, and two exclusion sets.
\<close>

theorem settings_round_trip_witness:
  "load_settings (\<lambda>s. s) (Some (save_settings (\<lambda>s. s) (''a'' @ [newline] @ ''b'')
       [(''x.py'', True)] [''x.py'' \<mapsto> True] [''x.py'' \<mapsto> False] [''.git'', ''venv''] [''LICENSE''])) =
     Inr (Some \<lparr>s_description = ''a'' @ [newline] @ ''b'',
       s_selected_files = map_of [(''x.py'', True)],
       s_remove_comments = [''x.py'' \<mapsto> True] |` (fst ` set [(''x.py'', True)]),
       s_remove_functions = [''x.py'' \<mapsto> False] |` (fst ` set [(''x.py'', True)]),
       s_ignored_folders = set [''.git'', ''venv''],
       s_ignored_files = set [''LICENSE'']\<rparr>)"
proof (rule settings_round_trip)
  show "storable_description (''a'' @ [newline] @ ''b'')"
    by (simp add: storable_description_def py_isspace_def)
  show "distinct (map fst [(''x.py'', True)])" by simp
  show "length (str_nat (length [(''x.py'', True)])) \<le> int_max_str_digits"
    by (simp add: str_nat.simps int_max_str_digits_def)
  show "\<forall>(p, v)\<in>set [(''x.py'', True)]. storable_path (\<lambda>s. s) (\<lambda>s. s) p \<and>
      [''x.py'' \<mapsto> True] p \<noteq> None \<and> [''x.py'' \<mapsto> False] p \<noteq> None"
    by (auto simp: storable_path_def py_isspace_def)
  show "storable_names [''.git'', ''venv'']"
    by (simp add: storable_names_def py_isspace_def)
  show "storable_names [''LICENSE'']"
    by (simp add: storable_names_def py_isspace_def)
qed

text \<open>
  Claim C3 as stated fails. A description typed with a leading space comes back without it,
  because the line is stripped; and the exclusion set that holds only the empty name, which
  is what an emptied entry field gives, is written as an empty line and comes back as the
  default set.
\<close>

theorem settings_round_trip_fails:
  "map_sum id (map_option s_description)
     (load_settings (\<lambda>s. s) (Some (save_settings (\<lambda>s. s) '' x''
        [] Map.empty Map.empty [''venv''] [''LICENSE'']))) = Inr (Some ''x'') \<and>
   map_sum id (map_option s_ignored_folders)
     (load_settings (\<lambda>s. s) (Some (save_settings (\<lambda>s. s) ''x''
        [] Map.empty Map.empty [[]] [''LICENSE'']))) = Inr (Some DEFAULT_IGNORED_FOLDERS)"
  by code_simp

text \<open>
  Claim C8, as amended. Without a settings file the result is \<^verbatim>\<open>None\<close>. With a file the
  result is never \<^verbatim>\<open>None\<close>: when the second line, stripped, is no integer literal that
  \<^verbatim>\<open>int\<close> accepts, the call raises \<^verbatim>\<open>ValueError\<close>; otherwise it returns a tuple of
  settings whose description is the first line, stripped and with the markers decoded,
  whatever the other lines hold.
\<close>

theorem load_settings_missing_or_malformed:
  "load_settings path_of None = Inr None \<and>
   load_settings path_of (Some content) \<noteq> Inr None \<and>
   (py_int (py_strip (fst (readline (snd (readline (universal_newlines content)))))) = None \<longrightarrow>
      load_settings path_of (Some content) = Inl ValueError) \<and>
   (py_int (py_strip (fst (readline (snd (readline (universal_newlines content)))))) \<noteq> None \<longrightarrow>
      (\<exists>s. load_settings path_of (Some content) = Inr (Some s) \<and>
           s_description s = py_replace ''<newline>'' [newline]
             (py_strip (fst (readline (universal_newlines content))))))"
  by (auto simp: load_settings_def Let_def split: option.splits prod.splits)

text \<open>
  No file; an empty file; and a file with a description and the count 0, which lacks the
  two lines of exclusion sets and is loaded all the same.
\<close>

theorem load_settings_missing_or_malformed_witness:
  "load_settings (\<lambda>s. s) None = Inr None \<and>
   load_settings (\<lambda>s. s) (Some []) = Inl ValueError \<and>
   (\<exists>s. load_settings (\<lambda>s. s) (Some (''d'' @ [newline] @ ''0'' @ [newline])) = Inr (Some s) \<and>
        s_description s = ''d'')"
proof -
  have none: "py_int (py_strip (fst (readline (snd (readline (universal_newlines []))))) ) = None"
    by (simp add: readline_def py_strip_def py_int_def)
  have some: "py_int (py_strip (fst (readline (snd (readline
      (universal_newlines (''d'' @ [newline] @ ''0'' @ [newline]))))))) \<noteq> None"
    by code_simp
  have desc: "py_replace ''<newline>'' [newline] (py_strip (fst (readline
      (universal_newlines (''d'' @ [newline] @ ''0'' @ [newline]))))) = ''d''"
    by code_simp
  from load_settings_missing_or_malformed[of "\<lambda>s. s" "[]"] none
    load_settings_missing_or_malformed[of "\<lambda>s. s" "''d'' @ [newline] @ ''0'' @ [newline]"] some desc
  show ?thesis by (simp del: append.simps)
qed

text \<open>
  Claim C8 as stated fails: a file whose second line is \<^verbatim>\<open>abc\<close> makes the call raise.
\<close>

theorem load_settings_malformed_raises:
  "load_settings (\<lambda>s. s) (Some (''d'' @ [newline] @ ''abc'' @ [newline])) = Inl ValueError"
  by (simp add: load_settings_def readline_def py_strip_def py_int_def parse_unsigned_def is_digit_def
      py_isspace_def Let_def)

end
